theory Spec2Isabelle
  imports
    Complex_Main
    "HOL-Library.Char_ord"
    "HOL-Library.List_Lexorder"
    "HOL-Library.Product_Lexorder"
    "HOL-Library.Multiset"
    "HOL-Library.Sublist"
begin

section \<open>Python values and strings\<close>

text \<open>
  A Python \<open>str\<close> is modelled as a \<open>string\<close> whose characters are the code points
  0..255 (Latin-1), so \<open>length\<close> is Python's \<open>len\<close>.  Code points above 255 are
  outside the model; the only place where the source names such characters is the
  dash unification of the name keys, which is the identity on this domain.

  The character classes below are those of CPython's \<open>str.isspace\<close>, \<open>str.lower\<close>
  and of the \<open>re\<close> module (\<open>\s\<close>, \<open>\w\<close>, \<open>\d\<close>) on these code points.
\<close>

definition is_space :: "char \<Rightarrow> bool" where
  "is_space c =
     (let n = (of_char c :: nat)
      in (9 \<le> n \<and> n \<le> 13) \<or> (28 \<le> n \<and> n \<le> 32) \<or> n = 133 \<or> n = 160)"

definition is_digit :: "char \<Rightarrow> bool" where
  "is_digit c = (let n = (of_char c :: nat) in 48 \<le> n \<and> n \<le> 57)"

definition is_word :: "char \<Rightarrow> bool" where
  "is_word c =
     (let n = (of_char c :: nat)
      in (48 \<le> n \<and> n \<le> 57) \<or> (65 \<le> n \<and> n \<le> 90) \<or> n = 95 \<or> (97 \<le> n \<and> n \<le> 122)
         \<or> n = 170 \<or> n = 178 \<or> n = 179 \<or> n = 181 \<or> n = 185 \<or> n = 186
         \<or> (188 \<le> n \<and> n \<le> 190) \<or> (192 \<le> n \<and> n \<le> 214)
         \<or> (216 \<le> n \<and> n \<le> 246) \<or> (248 \<le> n \<and> n \<le> 255))"

definition lower_char :: "char \<Rightarrow> char" where
  "lower_char c =
     (let n = (of_char c :: nat)
      in if (65 \<le> n \<and> n \<le> 90) \<or> (192 \<le> n \<and> n \<le> 222 \<and> n \<noteq> 215)
         then char_of (n + 32) else c)"

definition lower :: "string \<Rightarrow> string" where
  "lower s = map lower_char s"

text \<open>\<open>s.strip()\<close>: leading and trailing whitespace removed.\<close>

definition strip :: "string \<Rightarrow> string" where
  "strip s = rev (dropWhile is_space (rev (dropWhile is_space s)))"

text \<open>
  \<open>re.sub(r"\s+", " ", s)\<close>: every maximal run of whitespace becomes one blank.
  The flag says that the previous character belonged to a run already replaced.
\<close>

fun collapse_ws :: "bool \<Rightarrow> string \<Rightarrow> string" where
  "collapse_ws b [] = []"
| "collapse_ws b (c # cs) =
     (if is_space c then (if b then collapse_ws True cs else CHR '' '' # collapse_ws True cs)
      else c # collapse_ws False cs)"

text \<open>
  The values a record field can hold: \<open>None\<close>, a \<open>str\<close>, a \<open>list\<close>, or any other
  value (number, bool, dict), which the code only ever turns into text with \<open>str\<close>;
  \<open>POther r\<close> is such a value with \<open>r\<close> its \<open>str\<close>/\<open>repr\<close> text.
\<close>

datatype pyval = PNone | PStr string | PList "pyval list" | POther string

definition hex_digit :: "nat \<Rightarrow> char" where
  "hex_digit n = (if n < 10 then char_of (48 + n) else char_of (87 + n))"

definition is_printable :: "char \<Rightarrow> bool" where
  "is_printable c =
     (let n = (of_char c :: nat) in \<not> (n < 32 \<or> (127 \<le> n \<and> n \<le> 160) \<or> n = 173))"

definition repr_char :: "char \<Rightarrow> char \<Rightarrow> string" where
  "repr_char q c =
     (if c = q \<or> c = CHR 0x5C then [CHR 0x5C, c]
      else if c = CHR 0x09 then [CHR 0x5C, CHR ''t'']
      else if c = CHR 0x0A then [CHR 0x5C, CHR ''n'']
      else if c = CHR 0x0D then [CHR 0x5C, CHR ''r'']
      else if is_printable c then [c]
      else [CHR 0x5C, CHR ''x'', hex_digit (of_char c div 16), hex_digit (of_char c mod 16)])"

definition repr_str :: "string \<Rightarrow> string" where
  "repr_str s =
     (let q = (if CHR 0x27 \<in> set s \<and> CHR 0x22 \<notin> set s then CHR 0x22 else CHR 0x27)
      in [q] @ concat (map (repr_char q) s) @ [q])"

fun join :: "string \<Rightarrow> string list \<Rightarrow> string" where
  "join sep [] = []"
| "join sep [x] = x"
| "join sep (x # y # ys) = x @ sep @ join sep (y # ys)"

fun py_repr :: "pyval \<Rightarrow> string" where
  "py_repr PNone = ''None''"
| "py_repr (PStr s) = repr_str s"
| "py_repr (POther r) = r"
| "py_repr (PList xs) = ''['' @ join '', '' (map py_repr xs) @ '']''"

definition py_str :: "pyval \<Rightarrow> string" where
  "py_str v = (case v of PStr s \<Rightarrow> s | _ \<Rightarrow> py_repr v)"

section \<open>Utilities\<close>

definition safe_str :: "pyval \<Rightarrow> string" where
  "safe_str x = (case x of PNone \<Rightarrow> [] | _ \<Rightarrow> strip (py_str x))"

definition norm_space :: "pyval \<Rightarrow> string" where
  "norm_space s = strip (collapse_ws False (safe_str s))"

section \<open>Subject canonicalization\<close>

text \<open>
  \<open>re.match(r"^CCF\s+\w+\s*\((.+)\)$", s, flags=re.IGNORECASE)\<close>, returning group 1.
  \<open>\s+\<close>, \<open>\w+\<close> and \<open>\s*\<close> are maximal runs (the classes are disjoint from what
  must follow them); \<open>.\<close> does not match a newline and \<open>$\<close> matches at the end or
  before a final newline, so after the opening parenthesis the rest must be one
  line ending in \<open>)\<close>, optionally followed by a single newline.
\<close>

definition ccf_prefix_rest :: "string \<Rightarrow> string option" where
  "ccf_prefix_rest s =
     (if lower (take 3 s) = ''ccf'' then
        (let r1 = drop 3 s; r2 = dropWhile is_space r1; r3 = dropWhile is_word r2
         in if r1 \<noteq> r2 \<and> r2 \<noteq> r3 then Some r3 else None)
      else None)"

definition match_ccf_paren :: "string \<Rightarrow> string option" where
  "match_ccf_paren s =
     (case ccf_prefix_rest s of
        None \<Rightarrow> None
      | Some r3 \<Rightarrow>
         (case dropWhile is_space r3 of
            [] \<Rightarrow> None
          | c # r4 \<Rightarrow>
             (let line = takeWhile (\<lambda>x. x \<noteq> CHR 0x0A) r4;
                  rest = dropWhile (\<lambda>x. x \<noteq> CHR 0x0A) r4
              in if c = CHR ''('' \<and> (rest = [] \<or> rest = [CHR 0x0A])
                    \<and> 2 \<le> length line \<and> last line = CHR '')''
                 then Some (butlast line) else None)))"

text \<open>\<open>re.match(r"^CCF\s+\w+", s, flags=re.IGNORECASE)\<close> as a truth value.\<close>

definition has_ccf_prefix :: "string \<Rightarrow> bool" where
  "has_ccf_prefix s = (ccf_prefix_rest s \<noteq> None)"

text \<open>
  \<open>re.search(r"\(([^()]+)\)\s*$", s)\<close>, returning group 1: the string ends, up to
  trailing whitespace, with a parenthesis pair around a non-empty text without
  parentheses.  The closing parenthesis is the last non-blank character, and the
  opening one is the nearest before it, so there is at most one such match.
\<close>

definition is_paren :: "char \<Rightarrow> bool" where
  "is_paren c = (c = CHR ''('' \<or> c = CHR '')'')"

definition search_trailing_paren :: "string \<Rightarrow> string option" where
  "search_trailing_paren s =
     (case dropWhile is_space (rev s) of
        [] \<Rightarrow> None
      | c # body \<Rightarrow>
         (let g = takeWhile (\<lambda>x. \<not> is_paren x) body;
              pre = dropWhile (\<lambda>x. \<not> is_paren x) body
          in if c = CHR '')'' \<and> g \<noteq> [] \<and> pre \<noteq> [] \<and> hd pre = CHR ''(''
             then Some (rev g) else None))"

definition canonicalize_subject :: "pyval \<Rightarrow> string" where
  "canonicalize_subject label =
     (let s = norm_space label;
          s = (case match_ccf_paren s of Some g \<Rightarrow> norm_space (PStr g) | None \<Rightarrow> s);
          m2 = search_trailing_paren s;
          s = (if has_ccf_prefix s \<and> m2 \<noteq> None then norm_space (PStr (the m2)) else s);
          s = (if lower s = ''wireless & communication'' \<or> lower s = ''wireless and communication''
               then ''Wireless/Communication'' else s);
          s = (if lower s \<in> {''networking & systems'', ''networking and systems'',
                              ''networks and systems''}
               then ''Network System'' else s);
          s = (if lower s = ''network system'' then ''Network System'' else s)
      in s)"


text \<open>\<open>_ensure_list\<close> and \<open>_dedupe_list\<close>.\<close>

definition ensure_list :: "pyval \<Rightarrow> pyval list" where
  "ensure_list x = (case x of PNone \<Rightarrow> [] | PList xs \<Rightarrow> xs | _ \<Rightarrow> [x])"

fun dedupe_loop :: "string set \<Rightarrow> string list \<Rightarrow> pyval list \<Rightarrow> string list" where
  "dedupe_loop seen out [] = out"
| "dedupe_loop seen out (x # xs) =
     (let x' = safe_str x
      in if x' = [] then dedupe_loop seen out xs
         else if x' \<notin> seen then dedupe_loop (insert x' seen) (out @ [x']) xs
         else dedupe_loop seen out xs)"

definition dedupe_list :: "pyval list \<Rightarrow> string list" where
  "dedupe_list xs = dedupe_loop {} [] xs"

section \<open>Date cleaning\<close>

text \<open>
  \<open>datetime\<close> is library code.  Its four functions used by the program are taken
  as a parameter: \<open>strptime\<close> and \<open>fromisoformat\<close> return \<open>None\<close> where the library
  raises \<open>ValueError\<close>, \<open>timestamp\<close> returns \<open>None\<close> where it raises (a date out of
  the platform's range).  \<open>'dt\<close> is the type of \<open>datetime\<close> objects.
\<close>

record 'dt datetime_lib =
  strptime :: "string \<Rightarrow> string \<Rightarrow> 'dt option"
  strftime :: "'dt \<Rightarrow> string \<Rightarrow> string"
  fromisoformat :: "string \<Rightarrow> 'dt option"
  timestamp :: "'dt \<Rightarrow> real option"

text \<open>
  \<open>re.sub(pattern, "", s)\<close> for a pattern that never matches the empty string:
  scan from the left; where the pattern matches, skip the match, otherwise keep the
  character.  A matcher gets the character before the position (for \<open>\b\<close>) and the
  rest of the string, and returns the length of the match starting there.
\<close>

type_synonym matcher = "char option \<Rightarrow> string \<Rightarrow> nat option"

fun sub_del :: "matcher \<Rightarrow> char option \<Rightarrow> nat \<Rightarrow> string \<Rightarrow> string" where
  "sub_del m prev k [] = []"
| "sub_del m prev k (c # cs) =
     (if 0 < k then sub_del m (Some c) (k - 1) cs
      else (case m prev (c # cs) of
              Some (Suc n) \<Rightarrow> sub_del m (Some c) n cs
            | _ \<Rightarrow> c # sub_del m (Some c) 0 cs))"

definition re_sub_del :: "matcher \<Rightarrow> string \<Rightarrow> string" where
  "re_sub_del m s = sub_del m None 0 s"

text \<open>\<open></?strike>\<close>, ignoring case.\<close>

definition m_strike :: matcher where
  "m_strike prev s =
     (if lower (take 8 s) = ''<strike>'' then Some 8
      else if lower (take 9 s) = ''</strike>'' then Some 9 else None)"

text \<open>\<open>\(.*?\)\<close>: from an opening parenthesis to the next closing one on the same line.\<close>

definition m_paren :: matcher where
  "m_paren prev s =
     (case s of
        [] \<Rightarrow> None
      | c # r \<Rightarrow>
         if c = CHR ''('' then
           (let inner = takeWhile (\<lambda>x. x \<noteq> CHR '')'' \<and> x \<noteq> CHR 0x0A) r
            in case drop (length inner) r of
                 [] \<Rightarrow> None
               | d # _ \<Rightarrow> if d = CHR '')'' then Some (length inner + 2) else None)
         else None)"

text \<open>\<open>in\s+\d+\s+days\<close>, ignoring case.\<close>

definition m_in_days :: matcher where
  "m_in_days prev s =
     (if lower (take 2 s) = ''in'' then
        (let r = drop 2 s; r1 = dropWhile is_space r; r2 = dropWhile is_digit r1;
             r3 = dropWhile is_space r2
         in if r \<noteq> r1 \<and> r1 \<noteq> r2 \<and> r2 \<noteq> r3 \<and> lower (take 4 r3) = ''days''
            then Some (length s - length r3 + 4) else None)
      else None)"

text \<open>\<open>;?\s*\d{1,2}:\d{2}\s*(AM|PM)\<close>, ignoring case.\<close>

definition m_clock :: matcher where
  "m_clock prev s =
     (let r0 = (case s of [] \<Rightarrow> s | c # r \<Rightarrow> if c = CHR '';'' then r else s);
          r1 = dropWhile is_space r0;
          d = takeWhile is_digit (take 2 r1);
          r2 = drop (length d) r1
      in if d \<noteq> [] \<and> take 1 r2 = '':''
            \<and> length (takeWhile is_digit (take 2 (drop 1 r2))) = 2
         then (let r3 = dropWhile is_space (drop 3 r2)
               in if lower (take 2 r3) = ''am'' \<or> lower (take 2 r3) = ''pm''
                  then Some (length s - length r3 + 2) else None)
         else None)"

text \<open>Lines 161--166 of \<open>_clean_deadline_human\<close>: the noise is removed.\<close>

definition strip_noise :: "string \<Rightarrow> string" where
  "strip_noise val =
     (let s = re_sub_del m_strike val;
          s = re_sub_del m_paren s;
          s = re_sub_del m_in_days s;
          s = re_sub_del m_clock s;
          s = filter (\<lambda>c. c \<noteq> CHR '';'') s
      in norm_space (PStr s))"

definition deadline_formats :: "string list" where
  "deadline_formats = [''%b %d %Y'', ''%B %d %Y'', ''%b %d, %Y'', ''%B %d, %Y'', ''%Y-%m-%d'']"

text \<open>The \<open>for fmt in (...)\<close> loop with its \<open>try\<close>/\<open>except ValueError: continue\<close>.\<close>

fun try_formats :: "'dt datetime_lib \<Rightarrow> string \<Rightarrow> string list \<Rightarrow> string option" where
  "try_formats L s [] = None"
| "try_formats L s (fmt # fmts) =
     (case strptime L s fmt of
        Some dt \<Rightarrow> Some (strftime L dt ''%b %d %Y'')
      | None \<Rightarrow> try_formats L s fmts)"

definition clean_deadline_human :: "'dt datetime_lib \<Rightarrow> pyval \<Rightarrow> string" where
  "clean_deadline_human L val =
     (case val of
        PStr v \<Rightarrow>
          if strip v = [] then []
          else (let s = strip_noise v
                in case try_formats L s deadline_formats of Some r \<Rightarrow> r | None \<Rightarrow> s)
      | _ \<Rightarrow> [])"

section \<open>Records\<close>

text \<open>A record is a \<open>dict\<close> from field names to values.\<close>

type_synonym entry = "string \<rightharpoonup> pyval"

text \<open>\<open>d.get(k, default)\<close> and \<open>d.get(k)\<close>.\<close>

definition dget :: "entry \<Rightarrow> string \<Rightarrow> pyval \<Rightarrow> pyval" where
  "dget d k dflt = (case d k of None \<Rightarrow> dflt | Some v \<Rightarrow> v)"

definition dget_none :: "entry \<Rightarrow> string \<Rightarrow> pyval" where
  "dget_none d k = dget d k PNone"

text \<open>
  \<open>d[k]\<close> (or \<open>d.get(k, "")\<close>) read where the program has just normalized \<open>d\<close>, so
  that the key is present and holds a \<open>str\<close> (lemma \<open>normalize_entry_fields_str\<close>).
\<close>

definition str_field :: "entry \<Rightarrow> string \<Rightarrow> string" where
  "str_field d k = (case d k of Some (PStr s) \<Rightarrow> s | _ \<Rightarrow> [])"

definition normalize_entry_subjects :: "entry \<Rightarrow> entry" where
  "normalize_entry_subjects entry =
     (let raw = dget entry ''sub'' (PStr []);
          subs = (case raw of
                    PList xs \<Rightarrow> map canonicalize_subject xs
                  | PStr r \<Rightarrow> if strip r \<noteq> [] then [canonicalize_subject raw] else []
                  | _ \<Rightarrow> []);
          subs = dedupe_list (map PStr (filter (\<lambda>s. s \<noteq> []) subs));
          subs = (if subs = [] then [''Uncategorized''] else subs)
      in entry(''sub'' \<mapsto> PList (map PStr subs)))"

definition normalize_entry_fields :: "'dt datetime_lib \<Rightarrow> entry \<Rightarrow> entry" where
  "normalize_entry_fields L entry =
     (let out = [''name'' \<mapsto> PStr (norm_space (dget entry ''name'' (PStr []))),
                 ''sub'' \<mapsto> dget entry ''sub'' (PStr []),
                 ''Location'' \<mapsto> PStr (norm_space (dget entry ''Location'' (PStr []))),
                 ''Start Date'' \<mapsto> PStr (norm_space (dget entry ''Start Date'' (PStr []))),
                 ''End Date'' \<mapsto> PStr (norm_space (dget entry ''End Date'' (PStr []))),
                 ''Abstract Deadline'' \<mapsto> PStr (norm_space (dget entry ''Abstract Deadline'' (PStr []))),
                 ''Submission Deadline'' \<mapsto> PStr (norm_space (dget entry ''Submission Deadline'' (PStr []))),
                 ''Notification'' \<mapsto> PStr (norm_space (dget entry ''Notification'' (PStr []))),
                 ''link'' \<mapsto> PStr (norm_space (dget entry ''link'' (PStr [])))];
          out = out(''Start Date'' \<mapsto> PStr (clean_deadline_human L (the (out ''Start Date''))));
          out = out(''End Date'' \<mapsto> PStr (clean_deadline_human L (the (out ''End Date''))));
          out = out(''Abstract Deadline'' \<mapsto> PStr (clean_deadline_human L (the (out ''Abstract Deadline''))));
          out = out(''Submission Deadline'' \<mapsto> PStr (clean_deadline_human L (the (out ''Submission Deadline''))));
          out = out(''Notification'' \<mapsto> PStr (clean_deadline_human L (the (out ''Notification''))))
      in normalize_entry_subjects out)"

section \<open>Merge policy\<close>

definition updatable :: "string list" where
  "updatable = [''Location'', ''Start Date'', ''End Date'', ''Abstract Deadline'',
                ''Submission Deadline'', ''Notification'']"

text \<open>The body of \<open>for k in updatable\<close>, with \<open>new\<close> fixed.\<close>

definition refresh_field :: "entry \<Rightarrow> entry \<Rightarrow> string \<Rightarrow> entry" where
  "refresh_field new old k =
     (let nv = str_field new k
      in if nv \<noteq> [] then
           (if str_field old k = [] \<or> str_field old k \<noteq> nv then old(k \<mapsto> PStr nv) else old)
         else old)"

definition merge_entries :: "'dt datetime_lib \<Rightarrow> entry \<Rightarrow> entry \<Rightarrow> entry" where
  "merge_entries L old0 new0 =
     (let old = normalize_entry_fields L old0;
          new = normalize_entry_fields L new0;
          old = (if str_field new ''name'' \<noteq> []
                    \<and> length (str_field new ''name'') > length (str_field old ''name'')
                 then old(''name'' \<mapsto> PStr (str_field new ''name'')) else old);
          old = (if str_field old ''link'' = [] \<and> str_field new ''link'' \<noteq> []
                 then old(''link'' \<mapsto> PStr (str_field new ''link'')) else old);
          old = foldl (refresh_field new) old updatable;
          subs = dedupe_list (map (\<lambda>x. PStr (canonicalize_subject x))
                   (ensure_list (dget_none old ''sub'') @ ensure_list (dget_none new ''sub'')));
          subs = (if subs = [] then [''Uncategorized''] else subs)
      in old(''sub'' \<mapsto> PList (map PStr subs)))"

section \<open>Identity keys\<close>

text \<open>
  The substitution that rewrites the dash variants U+2010..U+2014 and U+2212 to a
  hyphen: none of these characters is a code point of the model, so nothing is
  replaced.
\<close>

definition unify_dashes :: "string \<Rightarrow> string" where
  "unify_dashes s = s"

text \<open>\<open>re.sub(r"[^a-z0-9\- ]+", "", s)\<close>.\<close>

definition is_key_char :: "char \<Rightarrow> bool" where
  "is_key_char c =
     (let n = (of_char c :: nat)
      in (97 \<le> n \<and> n \<le> 122) \<or> (48 \<le> n \<and> n \<le> 57) \<or> c = CHR ''-'' \<or> c = CHR '' '')"

definition norm_key_exact :: "pyval \<Rightarrow> string" where
  "norm_key_exact name =
     (let s = lower (safe_str name);
          s = strip (collapse_ws False s);
          s = unify_dashes s;
          s = filter is_key_char s
      in strip s)"

text \<open>\<open>_YEAR_RE\<close>: \<open>\b(19|20)\d{2}\b\<close>.\<close>

definition m_year :: matcher where
  "m_year prev s =
     (case s of
        a # b # c # d # rest \<Rightarrow>
          if ([a, b] = ''19'' \<or> [a, b] = ''20'') \<and> is_digit c \<and> is_digit d
             \<and> (case prev of None \<Rightarrow> True | Some p \<Rightarrow> \<not> is_word p)
             \<and> (case rest of [] \<Rightarrow> True | e # _ \<Rightarrow> \<not> is_word e)
          then Some 4 else None
      | _ \<Rightarrow> None)"

text \<open>
  \<open>_CYCLE_RE\<close>: an optional dash (hyphen, en dash or em dash) and optional
  whitespace, then \<open>cycle\s*(?:\d+|spring|fall)\b\<close>, ignoring case; of the three
  dashes only the hyphen is a code point of the model.
\<close>

definition m_cycle :: matcher where
  "m_cycle prev s =
     (let r0 = (case s of [] \<Rightarrow> s | c # r \<Rightarrow> if c = CHR ''-'' then r else s);
          r1 = dropWhile is_space r0
      in if lower (take 5 r1) = ''cycle'' then
           (let r2 = dropWhile is_space (drop 5 r1);
                t = (if r2 \<noteq> dropWhile is_digit r2 then Some (dropWhile is_digit r2)
                     else if lower (take 6 r2) = ''spring'' then Some (drop 6 r2)
                     else if lower (take 4 r2) = ''fall'' then Some (drop 4 r2)
                     else None)
            in case t of
                 None \<Rightarrow> None
               | Some t \<Rightarrow>
                   if (case t of [] \<Rightarrow> True | e # _ \<Rightarrow> \<not> is_word e)
                   then Some (length s - length t) else None)
         else None)"

definition norm_key_series :: "pyval \<Rightarrow> string" where
  "norm_key_series name =
     (let s = safe_str name;
          s = re_sub_del m_year s;
          s = re_sub_del m_cycle s;
          s = lower (safe_str (PStr s));
          s = strip (collapse_ws False s);
          s = unify_dashes s;
          s = filter is_key_char s
      in strip s)"

definition build_match_keys :: "entry \<Rightarrow> string \<times> string \<times> string" where
  "build_match_keys entry =
     (let link = safe_str (dget entry ''link'' (PStr []));
          link_key = (if link \<noteq> [] then strip (lower link) else []);
          exact = norm_key_exact (dget entry ''name'' (PStr []));
          series = norm_key_series (dget entry ''name'' (PStr []))
      in (link_key, exact, series))"

section \<open>Catalog index and resolution\<close>

type_synonym index = "string \<rightharpoonup> nat"

definition setdefault :: "index \<Rightarrow> string \<Rightarrow> nat \<Rightarrow> index" where
  "setdefault idx k v = (case idx k of None \<Rightarrow> idx(k \<mapsto> v) | Some _ \<Rightarrow> idx)"

text \<open>
  The three guarded \<open>idx.setdefault\<close> calls, as they stand in \<open>build_index\<close> and
  again in the append branch of \<open>merge_update\<close>.
\<close>

definition register_keys :: "index \<Rightarrow> string \<times> string \<times> string \<Rightarrow> nat \<Rightarrow> index" where
  "register_keys idx keys i =
     (case keys of (link_key, exact, series) \<Rightarrow>
        (let idx = (if link_key \<noteq> [] then setdefault idx (''L:'' @ link_key) i else idx);
             idx = (if exact \<noteq> [] then setdefault idx (''N:'' @ exact) i else idx);
             idx = (if series \<noteq> [] then setdefault idx (''S:'' @ series) i else idx)
         in idx))"

fun build_index_loop :: "index \<Rightarrow> nat \<Rightarrow> entry list \<Rightarrow> index" where
  "build_index_loop idx i [] = idx"
| "build_index_loop idx i (e # es) =
     build_index_loop (register_keys idx (build_match_keys e) i) (Suc i) es"

definition build_index :: "entry list \<Rightarrow> index" where
  "build_index existing = build_index_loop Map.empty 0 existing"

datatype py_error = IndexError

text \<open>Lines 882--888: the \<open>if\<close>/\<open>elif\<close> chain that picks \<open>hit\<close>.\<close>

definition find_hit :: "index \<Rightarrow> string \<times> string \<times> string \<Rightarrow> nat option" where
  "find_hit idx keys =
     (case keys of (link_key, exact, series) \<Rightarrow>
        if link_key \<noteq> [] \<and> idx (''L:'' @ link_key) \<noteq> None then idx (''L:'' @ link_key)
        else if exact \<noteq> [] \<and> idx (''N:'' @ exact) \<noteq> None then idx (''N:'' @ exact)
        else if series \<noteq> [] \<and> idx (''S:'' @ series) \<noteq> None then idx (''S:'' @ series)
        else None)"

text \<open>
  The \<open>for ne in new_entries\<close> loop on its state, the catalog and the index.
  \<open>existing[hit]\<close> raises \<open>IndexError\<close> when \<open>hit\<close> is out of range.  The two
  counters and the printed summary do not influence the result and are left out.
\<close>

fun merge_update_loop ::
  "'dt datetime_lib \<Rightarrow> entry list \<times> index \<Rightarrow> entry list \<Rightarrow> py_error + entry list \<times> index" where
  "merge_update_loop L (existing, idx) [] = Inr (existing, idx)"
| "merge_update_loop L (existing, idx) (ne # rest) =
     (let ne2 = normalize_entry_fields L ne;
          keys = build_match_keys ne2
      in case find_hit idx keys of
           None \<Rightarrow>
             (let existing' = existing @ [ne2];
                  new_i = length existing' - 1;
                  idx' = register_keys idx (build_match_keys ne2) new_i
              in merge_update_loop L (existing', idx') rest)
         | Some hit \<Rightarrow>
             if hit < length existing
             then merge_update_loop L
                    (existing[hit := merge_entries L (existing ! hit) ne2], idx) rest
             else Inl IndexError)"

definition merge_update ::
  "'dt datetime_lib \<Rightarrow> entry list \<Rightarrow> entry list \<Rightarrow> py_error + entry list" where
  "merge_update L existing new_entries =
     (let existing = map (normalize_entry_fields L) existing;
          idx = build_index existing
      in case merge_update_loop L (existing, idx) new_entries of
           Inl e \<Rightarrow> Inl e
         | Inr (existing', idx') \<Rightarrow> Inr existing')"

section \<open>Ordering\<close>

text \<open>\<open>s.replace("Z", "+00:00")\<close>.\<close>

definition replace_Z :: "string \<Rightarrow> string" where
  "replace_Z s = concat (map (\<lambda>c. if c = CHR ''Z'' then ''+00:00'' else [c]) s)"

text \<open>The local function \<open>_ts\<close> of \<open>sort_output\<close>; both \<open>try\<close> blocks catch every exception.\<close>

definition ts :: "'dt datetime_lib \<Rightarrow> string \<Rightarrow> real option" where
  "ts L s0 =
     (let s = safe_str (PStr s0)
      in if s = [] then None
         else (case Option.bind (fromisoformat L (replace_Z s)) (timestamp L) of
                 Some t \<Rightarrow> Some t
               | None \<Rightarrow> Option.bind (strptime L s ''%b %d %Y'') (timestamp L)))"

text \<open>The local function \<open>_key\<close>.\<close>

definition sort_key_of :: "'dt datetime_lib \<Rightarrow> entry \<Rightarrow> nat \<times> real \<times> string" where
  "sort_key_of L e =
     (case ts L (safe_str (dget_none e ''Submission Deadline'')) of
        None \<Rightarrow> (1, 9 * 10 ^ 18, lower (safe_str (dget_none e ''name'')))
      | Some t \<Rightarrow> (0, t, lower (safe_str (dget_none e ''name''))))"

text \<open>\<open>sorted(entries, key=_key)\<close>: a stable sort; tuples compare lexicographically.\<close>

definition sort_output :: "'dt datetime_lib \<Rightarrow> entry list \<Rightarrow> entry list" where
  "sort_output L entries = sort_key (sort_key_of L) entries"


section \<open>A library instance\<close>

text \<open>
  An instance of the library parameter for closed examples: CPython's \<open>datetime\<close>
  on date-only values, in the C locale and with UTC as the local time zone.  A
  \<open>datetime\<close> at midnight is the triple (year, month, day).  \<open>strptime\<close> follows
  CPython's \<open>_strptime\<close> for the directives \<open>%b %B %d %m %Y\<close> (any other directive
  is outside the instance and rejected); \<open>fromisoformat\<close> accepts \<open>YYYY-MM-DD\<close> and
  rejects every other text, so the instance is not CPython on ISO texts that carry
  a time or use another ISO shape.
\<close>

type_synonym civil = "nat \<times> nat \<times> nat"

definition digits_val :: "string \<Rightarrow> nat" where
  "digits_val s = foldl (\<lambda>a c. 10 * a + (of_char c - 48)) 0 s"

definition month_abbrs :: "string list" where
  "month_abbrs = [''jan'', ''feb'', ''mar'', ''apr'', ''may'', ''jun'',
                  ''jul'', ''aug'', ''sep'', ''oct'', ''nov'', ''dec'']"

definition month_names :: "string list" where
  "month_names = [''january'', ''february'', ''march'', ''april'', ''may'', ''june'', ''july'',
                  ''august'', ''september'', ''october'', ''november'', ''december'']"

fun match_name :: "string list \<Rightarrow> nat \<Rightarrow> string \<Rightarrow> (nat \<times> string) option" where
  "match_name [] i s = None"
| "match_name (nm # nms) i s =
     (if lower (take (length nm) s) = nm then Some (i, drop (length nm) s)
      else match_name nms (Suc i) s)"

text \<open>The directive \<open>%d\<close>: \<open>3[0-1]|[1-2]\d|0[1-9]|[1-9]| [1-9]\<close>.\<close>

definition p_day :: "string \<Rightarrow> (nat \<times> string) option" where
  "p_day s =
     (case s of
        [] \<Rightarrow> None
      | a # r \<Rightarrow>
         (let two = (case r of [] \<Rightarrow> False
                     | b # _ \<Rightarrow> (a = CHR ''3'' \<and> (b = CHR ''0'' \<or> b = CHR ''1''))
                              \<or> ((a = CHR ''1'' \<or> a = CHR ''2'') \<and> is_digit b)
                              \<or> (a = CHR ''0'' \<and> is_digit b \<and> b \<noteq> CHR ''0'')
                              \<or> (a = CHR '' '' \<and> is_digit b \<and> b \<noteq> CHR ''0''))
          in if two then Some (digits_val (filter is_digit (take 2 s)), drop 2 s)
             else if is_digit a \<and> a \<noteq> CHR ''0'' then Some (digits_val [a], r)
             else None))"

text \<open>The directive \<open>%m\<close>: \<open>1[0-2]|0[1-9]|[1-9]\<close>.\<close>

definition p_month :: "string \<Rightarrow> (nat \<times> string) option" where
  "p_month s =
     (case s of
        [] \<Rightarrow> None
      | a # r \<Rightarrow>
         (let two = (case r of [] \<Rightarrow> False
                     | b # _ \<Rightarrow> (a = CHR ''1'' \<and> (b = CHR ''0'' \<or> b = CHR ''1'' \<or> b = CHR ''2''))
                              \<or> (a = CHR ''0'' \<and> is_digit b \<and> b \<noteq> CHR ''0''))
          in if two then Some (digits_val (take 2 s), drop 2 s)
             else if is_digit a \<and> a \<noteq> CHR ''0'' then Some (digits_val [a], r)
             else None))"

text \<open>The directive \<open>%Y\<close>: four digits.\<close>

definition p_year :: "string \<Rightarrow> (nat \<times> string) option" where
  "p_year s =
     (if 4 \<le> length s \<and> list_all is_digit (take 4 s)
      then Some (digits_val (take 4 s), drop 4 s) else None)"

datatype fmt_token = Dir char | Ws | Lit char

text \<open>
  The format as \<open>_strptime\<close> reads it: a directive, a run of whitespace (which
  becomes \<open>\s+\<close>), or a literal character.  The flag says that the previous character
  of the format was whitespace.
\<close>

fun tokenize :: "bool \<Rightarrow> string \<Rightarrow> fmt_token list" where
  "tokenize b [] = []"
| "tokenize b [c] = (if is_space c then (if b then [] else [Ws]) else [Lit c])"
| "tokenize b (c # d # r) =
     (if c = CHR ''%'' then Dir d # tokenize False r
      else if is_space c then (if b then tokenize True (d # r) else Ws # tokenize True (d # r))
      else Lit c # tokenize False (d # r))"

text \<open>Matching the tokens; the state is (year, month, day), with \<open>strptime\<close>'s defaults.\<close>

fun run_tokens :: "fmt_token list \<Rightarrow> string \<Rightarrow> civil \<Rightarrow> civil option" where
  "run_tokens [] s ymd = (if s = [] then Some ymd else None)"
| "run_tokens (Ws # toks) s ymd =
     (if s \<noteq> [] \<and> is_space (hd s) then run_tokens toks (dropWhile is_space s) ymd else None)"
| "run_tokens (Lit c # toks) s ymd =
     (if s \<noteq> [] \<and> lower_char (hd s) = lower_char c then run_tokens toks (tl s) ymd else None)"
| "run_tokens (Dir x # toks) s (y, m, d) =
     (if x = CHR ''b'' then
        (case match_name month_abbrs 1 s of None \<Rightarrow> None | Some (v, r) \<Rightarrow> run_tokens toks r (y, v, d))
      else if x = CHR ''B'' then
        (case match_name month_names 1 s of None \<Rightarrow> None | Some (v, r) \<Rightarrow> run_tokens toks r (y, v, d))
      else if x = CHR ''d'' then
        (case p_day s of None \<Rightarrow> None | Some (v, r) \<Rightarrow> run_tokens toks r (y, m, v))
      else if x = CHR ''m'' then
        (case p_month s of None \<Rightarrow> None | Some (v, r) \<Rightarrow> run_tokens toks r (y, v, d))
      else if x = CHR ''Y'' then
        (case p_year s of None \<Rightarrow> None | Some (v, r) \<Rightarrow> run_tokens toks r (v, m, d))
      else None)"

definition is_leap :: "nat \<Rightarrow> bool" where
  "is_leap y = (y mod 4 = 0 \<and> (y mod 100 \<noteq> 0 \<or> y mod 400 = 0))"

definition days_in_month :: "nat \<Rightarrow> nat \<Rightarrow> nat" where
  "days_in_month y m =
     (if m = 2 then (if is_leap y then 29 else 28)
      else if m = 4 \<or> m = 6 \<or> m = 9 \<or> m = 11 then 30 else 31)"

definition valid_date :: "civil \<Rightarrow> bool" where
  "valid_date ymd =
     (case ymd of (y, m, d) \<Rightarrow>
        1 \<le> y \<and> y \<le> 9999 \<and> 1 \<le> m \<and> m \<le> 12 \<and> 1 \<le> d \<and> d \<le> days_in_month y m)"

definition c_strptime :: "string \<Rightarrow> string \<Rightarrow> civil option" where
  "c_strptime s fmt =
     (case run_tokens (tokenize False fmt) s (1900, 1, 1) of
        None \<Rightarrow> None
      | Some ymd \<Rightarrow> if valid_date ymd then Some ymd else None)"

fun dec_digits :: "nat \<Rightarrow> nat \<Rightarrow> string" where
  "dec_digits 0 n = []"
| "dec_digits (Suc k) n = dec_digits k (n div 10) @ [char_of (48 + n mod 10)]"

text \<open>
  \<open>dt.strftime("%b %d %Y")\<close>, the only format the program renders with: the month
  abbreviation, the day on two digits, the year as glibc writes it (no padding).
\<close>

definition c_strftime :: "civil \<Rightarrow> string \<Rightarrow> string" where
  "c_strftime ymd fmt =
     (case ymd of (y, m, d) \<Rightarrow>
        (let nm = month_abbrs ! (m - 1);
             yd = (if y < 10 then 1 else if y < 100 then 2 else if y < 1000 then 3 else 4)
         in [char_of (of_char (hd nm) - (32::nat))] @ tl nm @ '' '' @ dec_digits 2 d @ '' ''
            @ dec_digits yd y))"

definition c_fromisoformat :: "string \<Rightarrow> civil option" where
  "c_fromisoformat s =
     (if length s = 10 \<and> list_all is_digit (take 4 s) \<and> s ! 4 = CHR ''-''
         \<and> list_all is_digit (take 2 (drop 5 s)) \<and> s ! 7 = CHR ''-''
         \<and> list_all is_digit (drop 8 s)
      then (let ymd = (digits_val (take 4 s), digits_val (take 2 (drop 5 s)), digits_val (drop 8 s))
            in if valid_date ymd then Some ymd else None)
      else None)"

text \<open>Days from 1970-01-01 to the given date of the proleptic Gregorian calendar.\<close>

definition days_from_civil :: "civil \<Rightarrow> int" where
  "days_from_civil ymd =
     (case ymd of (y0, m, d) \<Rightarrow>
        (let y = (if m \<le> 2 then int y0 - 1 else int y0);
             era = y div 400;
             yoe = y - era * 400;
             mp = (if m \<le> 2 then int m + 9 else int m - 3);
             doy = (153 * mp + 2) div 5 + int d - 1;
             doe = yoe * 365 + yoe div 4 - yoe div 100 + doy
         in era * 146097 + doe - 719468))"

text \<open>\<open>dt.timestamp()\<close> of a naive \<open>datetime\<close> at midnight; it raises on 0001-01-01.\<close>

definition c_timestamp :: "civil \<Rightarrow> real option" where
  "c_timestamp ymd =
     (if ymd = (1, 1, 1) then None else Some (of_int (days_from_civil ymd * 86400)))"

definition c_lib :: "civil datetime_lib" where
  "c_lib = \<lparr> strptime = c_strptime, strftime = c_strftime,
             fromisoformat = c_fromisoformat, timestamp = c_timestamp \<rparr>"


section \<open>Example records\<close>

definition ex_A :: entry where
  "ex_A = [''name'' \<mapsto> PStr ''Alpha Conf'', ''link'' \<mapsto> PStr ''https://a.org'']"

definition ex_B :: entry where
  "ex_B = [''name'' \<mapsto> PStr ''Beta Conf'']"

definition ex_N :: entry where
  "ex_N = [''name'' \<mapsto> PStr ''Beta Conf'', ''link'' \<mapsto> PStr ''https://a.org'']"

definition ex_icml :: entry where
  "ex_icml = [''name'' \<mapsto> PStr ''ICML'', ''link'' \<mapsto> PStr [],
              ''Submission Deadline'' \<mapsto> PStr []]"

definition ex_icml_2026 :: entry where
  "ex_icml_2026 = [''name'' \<mapsto> PStr ''ICML 2026'', ''link'' \<mapsto> PStr ''https://icml.cc'',
                   ''Submission Deadline'' \<mapsto> PStr ''Jan 30 2026'']"

definition ex_icml_long :: entry where
  "ex_icml_long = [''name'' \<mapsto> PStr ''International Conference on Machine Learning'',
                   ''link'' \<mapsto> PStr ''https://icml.cc'']"




section \<open>Auxiliary notions for the proofs\<close>

text \<open>
  A string is tidy from a position on when every whitespace character in it is a
  single blank and no two of them are adjacent; the flag says that the character
  before the position was whitespace.
\<close>

fun wsok :: "bool \<Rightarrow> string \<Rightarrow> bool" where
  "wsok b [] = True"
| "wsok b (c # cs) = (if is_space c then c = CHR '' '' \<and> \<not> b \<and> wsok True cs else wsok False cs)"


text \<open>The three label rewrites at the end of \<open>canonicalize_subject\<close>, taken alone.\<close>

definition subject_rules :: "string \<Rightarrow> string" where
  "subject_rules s0 =
     (let s = (if lower s0 = ''wireless & communication'' \<or> lower s0 = ''wireless and communication''
               then ''Wireless/Communication'' else s0);
          s = (if lower s \<in> {''networking & systems'', ''networking and systems'',
                              ''networks and systems''}
               then ''Network System'' else s);
          s = (if lower s = ''network system'' then ''Network System'' else s)
      in s)"


text \<open>The nine keys of the output schema.\<close>

definition schema_keys :: "string set" where
  "schema_keys = {''name'', ''sub'', ''Location'', ''Start Date'', ''End Date'',
     ''Abstract Deadline'', ''Submission Deadline'', ''Notification'', ''link''}"

text \<open>Every position stored in the index is a position of the catalog of length \<open>n\<close>.\<close>

definition index_in_range :: "index \<Rightarrow> nat \<Rightarrow> bool" where
  "index_in_range idx n = (\<forall>k i. idx k = Some i \<longrightarrow> i < n)"



section \<open>Whitespace normalization is idempotent\<close>

lemma is_space_blank: "is_space (CHR '' '')"
  by (simp add: is_space_def)

lemma wsok_collapse_ws: "wsok b (collapse_ws b s)"
  by (induction s arbitrary: b) (auto simp: is_space_blank)

lemma wsok_fixed: "wsok b s \<Longrightarrow> collapse_ws b s = s"
  by (induction s arbitrary: b) (auto split: if_splits)

lemma wsok_weaken: "wsok True s \<Longrightarrow> wsok False s"
  by (cases s) (auto split: if_splits)

lemma wsok_dropWhile: "wsok False s \<Longrightarrow> wsok False (dropWhile is_space s)"
  by (induction s) (auto split: if_splits intro: wsok_weaken)

lemma wsok_prefix: "wsok b (xs @ ys) \<Longrightarrow> wsok b xs"
  by (induction xs arbitrary: b) (auto split: if_splits)

lemma wsok_drop_trailing: "wsok b s \<Longrightarrow> wsok b (rev (dropWhile is_space (rev s)))"
proof -
  assume h: "wsok b s"
  have "s = rev (dropWhile is_space (rev s)) @ rev (takeWhile is_space (rev s))"
    by (metis rev_append rev_rev_ident takeWhile_dropWhile_id)
  with h show ?thesis
    by (metis wsok_prefix)
qed

lemma wsok_strip: "wsok False s \<Longrightarrow> wsok False (strip s)"
  unfolding strip_def by (intro wsok_drop_trailing wsok_dropWhile)

lemma strip_strip: "strip (strip s) = strip s"
proof -
  define t where "t = dropWhile is_space s"
  define u where "u = rev (dropWhile is_space (rev t))"
  have tu: "t = u @ rev (takeWhile is_space (rev t))"
    unfolding u_def by (metis rev_append rev_rev_ident takeWhile_dropWhile_id)
  have "dropWhile is_space u = u"
  proof (cases u)
    case Nil
    then show ?thesis by simp
  next
    case (Cons a list)
    then have "hd t = a" "t \<noteq> []" using tu by (metis hd_append2 list.sel(1) list.distinct(1), auto)
    then have "\<not> is_space a" unfolding t_def using hd_dropWhile by metis
    then show ?thesis using Cons by simp
  qed
  moreover have "dropWhile is_space (rev u) = rev u"
    unfolding u_def by simp
  ultimately show ?thesis
    unfolding strip_def t_def[symmetric] u_def[symmetric] by simp
qed

lemma norm_space_fixed: "norm_space (PStr (norm_space v)) = norm_space v"
proof -
  define y where "y = norm_space v"
  have 1: "strip y = y" unfolding y_def norm_space_def by (rule strip_strip)
  have 2: "wsok False y" unfolding y_def norm_space_def by (intro wsok_strip wsok_collapse_ws)
  show ?thesis
    unfolding y_def[symmetric]
    by (simp add: norm_space_def safe_str_def py_str_def 1 wsok_fixed[OF 2])
qed


lemma set_strip: "set (strip s) \<subseteq> set s"
proof -
  have "set (rev (dropWhile is_space (rev (dropWhile is_space s)))) \<subseteq> set (dropWhile is_space s)"
    using set_dropWhileD by fastforce
  also have "\<dots> \<subseteq> set s" using set_dropWhileD by fastforce
  finally show ?thesis by (simp add: strip_def)
qed

lemma set_collapse_ws: "set (collapse_ws b s) \<subseteq> insert (CHR '' '') (set s)"
  by (induction s arbitrary: b) auto

lemma norm_space_no_paren:
  assumes "\<forall>c\<in>set g. \<not> is_paren c"
  shows "\<forall>c\<in>set (norm_space (PStr g)). \<not> is_paren c"
proof -
  have "set (norm_space (PStr g)) \<subseteq> insert (CHR '' '') (set g)"
    unfolding norm_space_def safe_str_def py_str_def
    using set_strip set_collapse_ws by (simp, blast)
  moreover have "\<not> is_paren (CHR '' '')" by (simp add: is_paren_def)
  ultimately show ?thesis using assms by auto
qed

lemma search_trailing_paren_group:
  "search_trailing_paren s = Some g \<Longrightarrow> \<forall>c\<in>set g. \<not> is_paren c"
  by (auto simp: search_trailing_paren_def Let_def split: list.splits if_splits dest: set_takeWhileD)

lemma search_trailing_paren_needs_paren:
  assumes "\<forall>c\<in>set s. \<not> is_paren c"
  shows "search_trailing_paren s = None"
proof (cases "dropWhile is_space (rev s)")
  case Nil
  show ?thesis by (simp add: search_trailing_paren_def Nil)
next
  case (Cons c body)
  then have "c \<in> set s" by (metis list.set_intros(1) set_dropWhileD set_rev)
  then have "c \<noteq> CHR '')''" using assms by (auto simp: is_paren_def)
  then show ?thesis using Cons by (simp add: search_trailing_paren_def Let_def)
qed


section \<open>Subject canonicalization\<close>

lemma lower_consts:
  "lower ''Wireless/Communication'' = ''wireless/communication''"
  "lower ''Network System'' = ''network system''"
  by code_simp+

lemma subject_rules_cases:
  "subject_rules s = s \<or> subject_rules s = ''Wireless/Communication'' \<or> subject_rules s = ''Network System''"
  by (auto simp: subject_rules_def Let_def)

lemma subject_rules_idem: "subject_rules (subject_rules s) = subject_rules s"
  by (auto simp: subject_rules_def Let_def lower_consts)

lemma consts_facts:
  "norm_space (PStr ''Wireless/Communication'') = ''Wireless/Communication''"
  "norm_space (PStr ''Network System'') = ''Network System''"
  "\<not> has_ccf_prefix ''Wireless/Communication''"
  "\<not> has_ccf_prefix ''Network System''"
  by code_simp+

lemma canonicalize_subject_stages:
  "canonicalize_subject x =
     (let s0 = norm_space x;
          s1 = (case match_ccf_paren s0 of Some g \<Rightarrow> norm_space (PStr g) | None \<Rightarrow> s0);
          s2 = (if has_ccf_prefix s1 \<and> search_trailing_paren s1 \<noteq> None
                then norm_space (PStr (the (search_trailing_paren s1))) else s1)
      in subject_rules s2)"
  by (simp add: canonicalize_subject_def subject_rules_def Let_def)


text \<open>
  C6, as the spec states it: canonicalizing a subject label twice gives the same
  result as canonicalizing it once, for every label.  This fails: a label whose
  parenthetical itself holds a \<open>CCF <code> (...)\<close> label with nested parentheses is
  unwrapped one level per pass.
\<close>

theorem C6_counterexample:
  "canonicalize_subject (PStr (canonicalize_subject (PStr ''CCF A (CCF B ((d)))'')))
   \<noteq> canonicalize_subject (PStr ''CCF A (CCF B ((d)))'')"
  by code_simp

text \<open>
  C6, amended: canonicalizing twice gives the same result as canonicalizing once
  for every label whose canonical form is not again of the shape
  \<open>CCF <code> (<text>)\<close>, that is, does not match the first pattern of
  \<open>canonicalize_subject\<close>.
\<close>

theorem C6_canonicalize_subject_idempotent:
  assumes "match_ccf_paren (canonicalize_subject x) = None"
  shows "canonicalize_subject (PStr (canonicalize_subject x)) = canonicalize_subject x"
proof -
  define s0 where "s0 = norm_space x"
  define s1 where "s1 = (case match_ccf_paren s0 of Some g \<Rightarrow> norm_space (PStr g) | None \<Rightarrow> s0)"
  define s2 where "s2 = (if has_ccf_prefix s1 \<and> search_trailing_paren s1 \<noteq> None
                then norm_space (PStr (the (search_trailing_paren s1))) else s1)"
  define y where "y = canonicalize_subject x"
  have y: "y = subject_rules s2"
    unfolding y_def canonicalize_subject_stages s2_def s1_def s0_def by (simp add: Let_def)
  have s1n: "norm_space (PStr s1) = s1"
    unfolding s1_def s0_def by (auto split: option.splits simp: norm_space_fixed)
  have s2n: "norm_space (PStr s2) = s2"
    unfolding s2_def using s1n by (auto simp: norm_space_fixed)
  have s2c: "\<not> (has_ccf_prefix s2 \<and> search_trailing_paren s2 \<noteq> None)"
  proof (cases "has_ccf_prefix s1 \<and> search_trailing_paren s1 \<noteq> None")
    case True
    then obtain g where g: "search_trailing_paren s1 = Some g" by auto
    then have "s2 = norm_space (PStr g)" using True by (simp add: s2_def)
    moreover have "\<forall>c\<in>set g. \<not> is_paren c" using g by (rule search_trailing_paren_group)
    ultimately have "search_trailing_paren s2 = None"
      using norm_space_no_paren search_trailing_paren_needs_paren by metis
    then show ?thesis by simp
  next
    case False
    have "s2 = s1" unfolding s2_def using False by (rule if_not_P)
    then show ?thesis using False by simp
  qed
  have a: "norm_space (PStr y) = y"
    using subject_rules_cases[of s2] s2n by (auto simp: y consts_facts)
  have c: "\<not> (has_ccf_prefix y \<and> search_trailing_paren y \<noteq> None)"
    using subject_rules_cases[of s2] s2c by (auto simp: y consts_facts)
  have d: "subject_rules y = y" by (simp add: y subject_rules_idem)
  have b: "match_ccf_paren y = None" using assms by (simp add: y_def)
  have "canonicalize_subject (PStr y) = y"
    unfolding canonicalize_subject_stages[of "PStr y"] using a b c d by (auto simp: Let_def)
  then show ?thesis by (simp add: y_def)
qed

theorem C6_witness:
  "match_ccf_paren (canonicalize_subject (PStr ''CCF NW (Network System)'')) = None
   \<and> canonicalize_subject (PStr (canonicalize_subject (PStr ''CCF NW (Network System)'')))
       = canonicalize_subject (PStr ''CCF NW (Network System)'')
   \<and> canonicalize_subject (PStr ''CCF NW (Network System)'') = ''Network System''"
proof -
  have h: "match_ccf_paren (canonicalize_subject (PStr ''CCF NW (Network System)'')) = None"
    by code_simp
  have v: "canonicalize_subject (PStr ''CCF NW (Network System)'') = ''Network System''"
    by code_simp
  show ?thesis
    using h v C6_canonicalize_subject_idempotent[OF h] by simp
qed

section \<open>Date cleaning\<close>

lemma try_formats_none:
  "\<forall>fmt\<in>set fmts. strptime L s fmt = None \<Longrightarrow> try_formats L s fmts = None"
  by (induction fmts) auto

lemma try_formats_first:
  "i < length fmts \<Longrightarrow> strptime L s (fmts ! i) = Some dt
     \<Longrightarrow> \<forall>j<i. strptime L s (fmts ! j) = None
     \<Longrightarrow> try_formats L s fmts = Some (strftime L dt ''%b %d %Y'')"
proof (induction fmts arbitrary: i)
  case Nil
  then show ?case by simp
next
  case (Cons f fmts)
  show ?case
  proof (cases i)
    case 0
    then show ?thesis using Cons.prems by simp
  next
    case (Suc i')
    have "strptime L s f = None" using Cons.prems(3) Suc by auto
    moreover have "try_formats L s fmts = Some (strftime L dt ''%b %d %Y'')"
    proof (rule Cons.IH)
      show "i' < length fmts" using Cons.prems(1) Suc by simp
      show "strptime L s (fmts ! i') = Some dt" using Cons.prems(2) Suc by simp
      show "\<forall>j<i'. strptime L s (fmts ! j) = None"
        using Cons.prems(3) Suc by auto
    qed
    ultimately show ?thesis by simp
  qed
qed

text \<open>
  C9: date normalization never raises and returns, for every input value: the empty
  string for a value that is not a \<open>str\<close> or is blank; otherwise, with the noise
  stripped, the rendering \<open>%b %d %Y\<close> of the first of the five formats, tried in
  the listed order, that parses the stripped text; and the stripped text itself
  when none of them parses it.  The only exception \<open>strptime\<close> raises is the
  \<open>ValueError\<close> the loop catches (the value \<open>None\<close> of the library parameter), and
  the function is total.
\<close>

theorem C9_clean_deadline_human:
  "((\<forall>v. val \<noteq> PStr v) \<longrightarrow> clean_deadline_human L val = [])
   \<and> (\<forall>v. val = PStr v \<and> strip v = [] \<longrightarrow> clean_deadline_human L val = [])
   \<and> (\<forall>v i dt. val = PStr v \<and> strip v \<noteq> []
         \<and> i < 5
         \<and> strptime L (strip_noise v)
              ([''%b %d %Y'', ''%B %d %Y'', ''%b %d, %Y'', ''%B %d, %Y'', ''%Y-%m-%d''] ! i) = Some dt
         \<and> (\<forall>j<i. strptime L (strip_noise v)
              ([''%b %d %Y'', ''%B %d %Y'', ''%b %d, %Y'', ''%B %d, %Y'', ''%Y-%m-%d''] ! j) = None)
         \<longrightarrow> clean_deadline_human L val = strftime L dt ''%b %d %Y'')
   \<and> (\<forall>v. val = PStr v \<and> strip v \<noteq> []
         \<and> (\<forall>fmt \<in> {''%b %d %Y'', ''%B %d %Y'', ''%b %d, %Y'', ''%B %d, %Y'', ''%Y-%m-%d''}.
               strptime L (strip_noise v) fmt = None)
         \<longrightarrow> clean_deadline_human L val = strip_noise v)"
proof (intro conjI allI impI)
  assume "\<forall>v. val \<noteq> PStr v"
  then show "clean_deadline_human L val = []"
    by (cases val) (simp_all add: clean_deadline_human_def)
next
  fix v assume "val = PStr v \<and> strip v = []"
  then show "clean_deadline_human L val = []" by (simp add: clean_deadline_human_def)
next
  fix v i dt
  assume a: "val = PStr v \<and> strip v \<noteq> [] \<and> i < 5
         \<and> strptime L (strip_noise v)
              ([''%b %d %Y'', ''%B %d %Y'', ''%b %d, %Y'', ''%B %d, %Y'', ''%Y-%m-%d''] ! i) = Some dt
         \<and> (\<forall>j<i. strptime L (strip_noise v)
              ([''%b %d %Y'', ''%B %d %Y'', ''%b %d, %Y'', ''%B %d, %Y'', ''%Y-%m-%d''] ! j) = None)"
  let ?fmts = "[''%b %d %Y'', ''%B %d %Y'', ''%b %d, %Y'', ''%B %d, %Y'', ''%Y-%m-%d'']"
  from a have 1: "i < length ?fmts" by simp
  from a have 2: "strptime L (strip_noise v) (?fmts ! i) = Some dt" by blast
  from a have 3: "\<forall>j<i. strptime L (strip_noise v) (?fmts ! j) = None" by blast
  have "try_formats L (strip_noise v) deadline_formats = Some (strftime L dt ''%b %d %Y'')"
    unfolding deadline_formats_def by (rule try_formats_first[OF 1 2 3])
  then show "clean_deadline_human L val = strftime L dt ''%b %d %Y''"
    using a by (simp add: clean_deadline_human_def Let_def)
next
  fix v
  assume a: "val = PStr v \<and> strip v \<noteq> []
         \<and> (\<forall>fmt \<in> {''%b %d %Y'', ''%B %d %Y'', ''%b %d, %Y'', ''%B %d, %Y'', ''%Y-%m-%d''}.
               strptime L (strip_noise v) fmt = None)"
  have "try_formats L (strip_noise v) deadline_formats = None"
    unfolding deadline_formats_def
    by (rule try_formats_none) (use a in simp)
  then show "clean_deadline_human L val = strip_noise v"
    using a by (simp add: clean_deadline_human_def Let_def)
qed

theorem C9_witness:
  "clean_deadline_human c_lib PNone = []
   \<and> clean_deadline_human c_lib (POther ''2026'') = []
   \<and> clean_deadline_human c_lib (PStr ''   '') = []
   \<and> strip_noise ''<strike>March 5, 2026</strike> (AOE); 11:59 PM in 3 days'' = ''March 5, 2026''
   \<and> clean_deadline_human c_lib (PStr ''<strike>March 5, 2026</strike> (AOE); 11:59 PM in 3 days'')
        = ''Mar 05 2026''
   \<and> clean_deadline_human c_lib (PStr ''TBD (soon)'') = ''TBD''"
proof -
  let ?v = "''<strike>March 5, 2026</strike> (AOE); 11:59 PM in 3 days''"
  have s: "strip_noise ?v = ''March 5, 2026''" by code_simp
  have nb: "strip ?v \<noteq> []" by code_simp
  have p: "strptime c_lib ''March 5, 2026'' ''%B %d, %Y'' = Some (2026, 3, 5)"
    "strptime c_lib ''March 5, 2026'' ''%b %d %Y'' = None"
    "strptime c_lib ''March 5, 2026'' ''%B %d %Y'' = None"
    "strptime c_lib ''March 5, 2026'' ''%b %d, %Y'' = None"
    by code_simp+
  have r: "strftime c_lib (2026, 3, 5) ''%b %d %Y'' = ''Mar 05 2026''" by code_simp
  have lt3: "j < 3 \<longleftrightarrow> j = 0 \<or> j = 1 \<or> j = 2" for j :: nat by auto
  have 1: "clean_deadline_human c_lib (PStr ?v) = ''Mar 05 2026''"
    using C9_clean_deadline_human[of "PStr ?v" c_lib, THEN conjunct2, THEN conjunct2, THEN conjunct1,
            rule_format, of ?v 3 "(2026, 3, 5)"] nb
    by (simp add: s p r lt3)
  have s2: "strip_noise ''TBD (soon)'' = ''TBD''" by code_simp
  have nb2: "strip ''TBD (soon)'' \<noteq> []" by code_simp
  have p2: "strptime c_lib ''TBD'' ''%B %d, %Y'' = None"
    "strptime c_lib ''TBD'' ''%b %d %Y'' = None"
    "strptime c_lib ''TBD'' ''%B %d %Y'' = None"
    "strptime c_lib ''TBD'' ''%b %d, %Y'' = None"
    "strptime c_lib ''TBD'' ''%Y-%m-%d'' = None"
    by code_simp+
  have 2: "clean_deadline_human c_lib (PStr ''TBD (soon)'') = ''TBD''"
    using C9_clean_deadline_human[of "PStr ''TBD (soon)''" c_lib, THEN conjunct2, THEN conjunct2, THEN conjunct2,
            rule_format, of "''TBD (soon)''"] nb2
    by (simp add: s2 p2)
  have 3: "clean_deadline_human c_lib PNone = []" "clean_deadline_human c_lib (POther ''2026'') = []"
    using C9_clean_deadline_human[of PNone c_lib] C9_clean_deadline_human[of "POther ''2026''" c_lib]
    by simp_all
  have st: "strip ''   '' = []" by code_simp
  have 4: "clean_deadline_human c_lib (PStr ''   '') = []"
    using C9_clean_deadline_human[of "PStr ''   ''" c_lib] st by simp
  show ?thesis using 1 2 3 4 s by simp
qed

section \<open>Normalized records\<close>

lemma dom_normalize_entry_subjects: "dom (normalize_entry_subjects e) = insert ''sub'' (dom e)"
  by (simp add: normalize_entry_subjects_def Let_def)

lemma normalize_entry_subjects_other: "k \<noteq> ''sub'' \<Longrightarrow> normalize_entry_subjects e k = e k"
  by (simp add: normalize_entry_subjects_def Let_def)

lemma normalize_entry_fields_plain:
  "normalize_entry_fields L e ''name'' = Some (PStr (norm_space (dget e ''name'' (PStr []))))"
  by (simp add: normalize_entry_fields_def Let_def normalize_entry_subjects_other)

lemma normalize_entry_fields_date:
  shows "normalize_entry_fields L e ''Start Date'' =
           Some (PStr (clean_deadline_human L (PStr (norm_space (dget e ''Start Date'' (PStr []))))))"
        "normalize_entry_fields L e ''End Date'' =
           Some (PStr (clean_deadline_human L (PStr (norm_space (dget e ''End Date'' (PStr []))))))"
        "normalize_entry_fields L e ''Abstract Deadline'' =
           Some (PStr (clean_deadline_human L (PStr (norm_space (dget e ''Abstract Deadline'' (PStr []))))))"
        "normalize_entry_fields L e ''Submission Deadline'' =
           Some (PStr (clean_deadline_human L (PStr (norm_space (dget e ''Submission Deadline'' (PStr []))))))"
        "normalize_entry_fields L e ''Notification'' =
           Some (PStr (clean_deadline_human L (PStr (norm_space (dget e ''Notification'' (PStr []))))))"
  by (simp_all add: normalize_entry_fields_def Let_def normalize_entry_subjects_other)

lemma dom_normalize_entry_fields: "dom (normalize_entry_fields L e) = schema_keys"
proof -
  have "dom (normalize_entry_fields L e) =
          {''sub'', ''Notification'', ''Submission Deadline'', ''Abstract Deadline'', ''End Date'',
           ''Start Date'', ''link'', ''Location'', ''sub'', ''name''}"
    by (simp add: normalize_entry_fields_def Let_def dom_normalize_entry_subjects)
  also have "\<dots> = schema_keys"
    unfolding schema_keys_def by (simp add: insert_commute)
  finally show ?thesis .
qed

lemma normalize_entry_fields_plain2:
  "normalize_entry_fields L e ''Location'' = Some (PStr (norm_space (dget e ''Location'' (PStr []))))"
  "normalize_entry_fields L e ''link'' = Some (PStr (norm_space (dget e ''link'' (PStr []))))"
  by (simp_all add: normalize_entry_fields_def Let_def normalize_entry_subjects_other)

lemma schema_keys_iff:
  "k \<in> schema_keys \<longleftrightarrow>
     (k = ''name'' \<or> k = ''sub'' \<or> k = ''Location'' \<or> k = ''Start Date'' \<or> k = ''End Date''
      \<or> k = ''Abstract Deadline'' \<or> k = ''Submission Deadline'' \<or> k = ''Notification''
      \<or> k = ''link'')"
  unfolding schema_keys_def by (simp only: insert_iff empty_iff simp_thms)

lemma normalize_entry_fields_str:
  assumes "k \<in> schema_keys" "k \<noteq> ''sub''"
  shows "normalize_entry_fields L e k = Some (PStr (str_field (normalize_entry_fields L e) k))"
proof -
  have "k = ''name'' \<or> k = ''Location'' \<or> k = ''Start Date'' \<or> k = ''End Date''
      \<or> k = ''Abstract Deadline'' \<or> k = ''Submission Deadline'' \<or> k = ''Notification''
      \<or> k = ''link''"
    using assms unfolding schema_keys_iff by (elim disjE) (simp_all only: simp_thms)
  then show ?thesis
    by (elim disjE)
       (simp_all only: str_field_def normalize_entry_fields_plain normalize_entry_fields_plain2
         normalize_entry_fields_date option.case pyval.case)
qed

section \<open>Merge policy\<close>

lemma refresh_field_other: "k \<noteq> k' \<Longrightarrow> refresh_field new old k' k = old k"
  by (simp add: refresh_field_def Let_def)

lemma dom_refresh_field: "k' \<in> dom old \<Longrightarrow> dom (refresh_field new old k') = dom old"
  by (auto simp: refresh_field_def Let_def)

lemma foldl_refresh_other: "k \<notin> set ks \<Longrightarrow> foldl (refresh_field new) old ks k = old k"
  by (induction ks arbitrary: old) (auto simp: refresh_field_other)

lemma dom_foldl_refresh: "set ks \<subseteq> dom old \<Longrightarrow> dom (foldl (refresh_field new) old ks) = dom old"
proof (induction ks arbitrary: old)
  case Nil
  then show ?case by simp
next
  case (Cons a ks)
  then have "dom (refresh_field new old a) = dom old" by (simp add: dom_refresh_field)
  with Cons show ?case by simp
qed

lemma str_field_PStr: "str_field d k \<noteq> [] \<Longrightarrow> d k = Some (PStr (str_field d k))"
  by (auto simp: str_field_def split: option.splits pyval.splits)

lemma refresh_field_same:
  "refresh_field new old k k = (if str_field new k \<noteq> [] then Some (PStr (str_field new k)) else old k)"
proof (cases "str_field new k \<noteq> [] \<and> \<not> (str_field old k = [] \<or> str_field old k \<noteq> str_field new k)")
  case True
  then have "old k = Some (PStr (str_field new k))" using str_field_PStr[of old k] by auto
  with True show ?thesis by (simp add: refresh_field_def Let_def)
next
  case False
  then show ?thesis by (auto simp: refresh_field_def Let_def)
qed

lemma foldl_refresh_in:
  "k \<in> set ks \<Longrightarrow> foldl (refresh_field new) old ks k =
     (if str_field new k \<noteq> [] then Some (PStr (str_field new k)) else old k)"
proof (induction ks arbitrary: old)
  case Nil
  then show ?case by simp
next
  case (Cons a ks)
  show ?case
  proof (cases "k \<in> set ks")
    case True
    have "foldl (refresh_field new) (refresh_field new old a) ks k =
      (if str_field new k \<noteq> [] then Some (PStr (str_field new k)) else refresh_field new old a k)"
      using Cons.IH[OF True] .
    then show ?thesis
      by (cases "a = k") (auto simp: refresh_field_same refresh_field_other)
  next
    case False
    then have "a = k" using Cons.prems by simp
    then show ?thesis using False by (simp add: foldl_refresh_other refresh_field_same)
  qed
qed

lemma updatable_iff:
  "k \<in> set updatable \<longleftrightarrow>
     (k = ''Location'' \<or> k = ''Start Date'' \<or> k = ''End Date''
      \<or> k = ''Abstract Deadline'' \<or> k = ''Submission Deadline'' \<or> k = ''Notification'')"
  unfolding updatable_def by (simp only: list.set insert_iff empty_iff simp_thms)

lemma updatable_not:
  assumes "k \<in> set updatable"
  shows "k \<noteq> ''name''" "k \<noteq> ''link''" "k \<noteq> ''sub''"
  using assms unfolding updatable_iff by (elim disjE; simp)+

lemma not_updatable: "''name'' \<notin> set updatable" "''link'' \<notin> set updatable" "''sub'' \<notin> set updatable"
  using updatable_not by blast+

lemma merge_entries_updatable:
  assumes "k \<in> set updatable"
  shows "merge_entries L old new k =
     (if str_field (normalize_entry_fields L new) k \<noteq> []
      then Some (PStr (str_field (normalize_entry_fields L new) k))
      else normalize_entry_fields L old k)"
  unfolding merge_entries_def Let_def
  using updatable_not[OF assms] assms by (simp add: foldl_refresh_in)

lemma merge_entries_name:
  "merge_entries L old new ''name'' =
     Some (PStr (if str_field (normalize_entry_fields L new) ''name'' \<noteq> []
                    \<and> length (str_field (normalize_entry_fields L old) ''name'')
                        < length (str_field (normalize_entry_fields L new) ''name'')
                 then str_field (normalize_entry_fields L new) ''name''
                 else str_field (normalize_entry_fields L old) ''name''))"
proof -
  have s: "normalize_entry_fields L old ''name'' = Some (PStr (str_field (normalize_entry_fields L old) ''name''))"
    by (rule normalize_entry_fields_str) (simp_all add: schema_keys_iff)
  show ?thesis
    unfolding merge_entries_def Let_def
    using s by (simp add: foldl_refresh_other[OF not_updatable(1)])
qed

lemma merge_entries_link:
  "merge_entries L old new ''link'' =
     Some (PStr (if str_field (normalize_entry_fields L old) ''link'' = []
                 then str_field (normalize_entry_fields L new) ''link''
                 else str_field (normalize_entry_fields L old) ''link''))"
proof -
  have s: "normalize_entry_fields L old ''link'' = Some (PStr (str_field (normalize_entry_fields L old) ''link''))"
    by (rule normalize_entry_fields_str) (simp_all add: schema_keys_iff)
  have t: "str_field (m(''name'' \<mapsto> v)) ''link'' = str_field m ''link''" for m v
    by (simp add: str_field_def)
  show ?thesis
    unfolding merge_entries_def Let_def
    using s by (simp add: foldl_refresh_other[OF not_updatable(2)] t)
qed

lemma dom_merge_entries: "dom (merge_entries L old new) = schema_keys"
proof -
  have u: "set updatable \<subseteq> schema_keys"
    by (simp add: updatable_def schema_keys_def)
  have m: "''name'' \<in> schema_keys" "''link'' \<in> schema_keys" "''sub'' \<in> schema_keys"
    by (simp_all add: schema_keys_iff)
  define n where "n = normalize_entry_fields L new"
  define o0 where "o0 = normalize_entry_fields L old"
  define o1 where "o1 = (if str_field n ''name'' \<noteq> []
                    \<and> length (str_field n ''name'') > length (str_field o0 ''name'')
                 then o0(''name'' \<mapsto> PStr (str_field n ''name'')) else o0)"
  define o2 where "o2 = (if str_field o1 ''link'' = [] \<and> str_field n ''link'' \<noteq> []
                 then o1(''link'' \<mapsto> PStr (str_field n ''link'')) else o1)"
  have d0: "dom o0 = schema_keys" unfolding o0_def by (rule dom_normalize_entry_fields)
  have d1: "dom o1 = schema_keys" unfolding o1_def using m(1) d0 by (simp add: insert_absorb)
  have d2: "dom o2 = schema_keys" unfolding o2_def using m(2) d1 by (simp add: insert_absorb)
  have d3: "dom (foldl (refresh_field n) o2 updatable) = schema_keys"
    using dom_foldl_refresh[of updatable o2] u d2 by simp
  show ?thesis
    unfolding merge_entries_def Let_def n_def[symmetric] o0_def[symmetric] o1_def[symmetric] o2_def[symmetric]
    using d3 m(3) by (simp add: insert_absorb)
qed

lemma normalized_name_fixed:
  "str_field (normalize_entry_fields L (normalize_entry_fields L e)) ''name'' = str_field (normalize_entry_fields L e) ''name''"
  by (simp add: str_field_def normalize_entry_fields_plain dget_def norm_space_fixed)

lemma clean_examples:
  "clean_deadline_human c_lib (PStr (norm_space (PStr ''in 3 d;ays''))) = ''in 3 days''"
  "clean_deadline_human c_lib (PStr (norm_space (PStr ''in 3 days''))) = []"
  "clean_deadline_human c_lib (PStr (norm_space (PStr ''Jan 10 2026''))) = ''Jan 10 2026''"
  "clean_deadline_human c_lib (PStr (norm_space (PStr ''Mar 01 2026''))) = ''Mar 01 2026''"
  "clean_deadline_human c_lib (PStr (norm_space (PStr []))) = []"
  by code_simp+

text \<open>
  C2, as the spec states it: \<open>merge\<close> alters only the enumerated fields, so a key of
  \<open>old\<close> outside the enumeration is present and unchanged in the merged record.
  This fails: \<open>merge_entries\<close> first rebuilds both records with
  \<open>normalize_entry_fields\<close>, which keeps the nine keys of the schema only.
\<close>

theorem C2_counterexample:
  "[''name'' \<mapsto> PStr ''X'', ''note'' \<mapsto> PStr ''keep''] ''note'' = Some (PStr ''keep'')
   \<and> merge_entries c_lib [''name'' \<mapsto> PStr ''X'', ''note'' \<mapsto> PStr ''keep''] Map.empty ''note'' = None"
proof -
  have "''note'' \<notin> schema_keys" by (simp add: schema_keys_iff)
  then have "''note'' \<notin> dom (merge_entries c_lib [''name'' \<mapsto> PStr ''X'', ''note'' \<mapsto> PStr ''keep''] Map.empty)"
    by (simp only: dom_merge_entries not_False_eq_True)
  then show ?thesis by (simp add: domIff)
qed

text \<open>
  C2, amended: the merged record has exactly the nine keys of the schema (name, sub,
  Location, Start Date, End Date, Abstract Deadline, Submission Deadline,
  Notification, link), whatever keys \<open>old\<close> and \<open>new\<close> have; every other key of
  \<open>old\<close> is dropped.
\<close>

theorem C2_merge_entries_keys:
  "dom (merge_entries L old new) =
     {''name'', ''sub'', ''Location'', ''Start Date'', ''End Date'',
      ''Abstract Deadline'', ''Submission Deadline'', ''Notification'', ''link''}"
  using dom_merge_entries[of L old new] by (simp only: schema_keys_def)

theorem C2_witness:
  "dom (merge_entries c_lib [''name'' \<mapsto> PStr ''X'', ''note'' \<mapsto> PStr ''keep''] Map.empty) =
     {''name'', ''sub'', ''Location'', ''Start Date'', ''End Date'',
      ''Abstract Deadline'', ''Submission Deadline'', ''Notification'', ''link''}
   \<and> ''note'' \<notin> dom (merge_entries c_lib [''name'' \<mapsto> PStr ''X'', ''note'' \<mapsto> PStr ''keep''] Map.empty)"
  using C2_merge_entries_keys[of c_lib "[''name'' \<mapsto> PStr ''X'', ''note'' \<mapsto> PStr ''keep'']" Map.empty]
  by simp

text \<open>
  C5: for records that have been normalized, the merged name is the name of \<open>new\<close>
  when that is non-empty and strictly longer than the name of \<open>old\<close>, and the
  name of \<open>old\<close> otherwise.
\<close>

theorem C5_merge_name:
  "merge_entries L (normalize_entry_fields L a) (normalize_entry_fields L b) ''name'' =
     Some (PStr (if str_field (normalize_entry_fields L b) ''name'' \<noteq> []
                    \<and> length (str_field (normalize_entry_fields L a) ''name'')
                        < length (str_field (normalize_entry_fields L b) ''name'')
                 then str_field (normalize_entry_fields L b) ''name''
                 else str_field (normalize_entry_fields L a) ''name''))"
  by (simp only: merge_entries_name normalized_name_fixed)

text \<open>The example of the spec: "ICML" merged with "ICML 2026" is named "ICML 2026".\<close>

theorem C5_witness:
  "merge_entries c_lib
     (normalize_entry_fields c_lib
        [''name'' \<mapsto> PStr ''ICML'', ''link'' \<mapsto> PStr [], ''Submission Deadline'' \<mapsto> PStr []])
     (normalize_entry_fields c_lib
        [''name'' \<mapsto> PStr ''ICML 2026'', ''link'' \<mapsto> PStr ''https://icml.cc'',
         ''Submission Deadline'' \<mapsto> PStr ''Jan 30 2026''])
     ''name'' = Some (PStr ''ICML 2026'')"
proof -
  have a: "norm_space (PStr ''ICML'') = ''ICML''" by code_simp
  have b: "norm_space (PStr ''ICML 2026'') = ''ICML 2026''" by code_simp
  show ?thesis
    by (simp add: C5_merge_name str_field_def normalize_entry_fields_plain dget_def a b)
qed

text \<open>
  C4, as the spec states it: for records that have been normalized and each of the
  six refreshed fields, a non-empty value of \<open>new\<close> overwrites and an empty one
  leaves the value of \<open>old\<close> unchanged.  This fails: \<open>merge_entries\<close> normalizes both
  records once more, and cleaning a date is not idempotent.  The text "in 3 d;ays"
  is cleaned to "in 3 days", and that to the empty string: as a value of \<open>new\<close> it
  is non-empty and does not overwrite, as a value of \<open>old\<close> it is erased.
\<close>

theorem C4_counterexample:
  "normalize_entry_fields c_lib [''Submission Deadline'' \<mapsto> PStr ''in 3 d;ays''] ''Submission Deadline''
     = Some (PStr ''in 3 days'')
   \<and> merge_entries c_lib
        (normalize_entry_fields c_lib [''Submission Deadline'' \<mapsto> PStr ''Jan 10 2026''])
        (normalize_entry_fields c_lib [''Submission Deadline'' \<mapsto> PStr ''in 3 d;ays''])
        ''Submission Deadline'' = Some (PStr ''Jan 10 2026'')
   \<and> normalize_entry_fields c_lib Map.empty ''Submission Deadline'' = Some (PStr [])
   \<and> merge_entries c_lib
        (normalize_entry_fields c_lib [''Submission Deadline'' \<mapsto> PStr ''in 3 d;ays''])
        (normalize_entry_fields c_lib Map.empty)
        ''Submission Deadline'' = Some (PStr [])"
proof -
  have u: "''Submission Deadline'' \<in> set updatable" by (simp add: updatable_def)
  have d: "''Submission Deadline'' \<in> {''Start Date'', ''End Date'', ''Abstract Deadline'', ''Submission Deadline'', ''Notification''}"
    by simp
  show ?thesis
    by (simp add: merge_entries_updatable[OF u] normalize_entry_fields_date(4) dget_def
        str_field_def clean_examples)
qed

text \<open>
  C4, amended: for each of the six refreshed fields whose values in \<open>old\<close> and in
  \<open>new\<close> are left unchanged by \<open>normalize_entry_fields\<close>, the merged field is the
  value of \<open>new\<close> when that is non-empty, and the value of \<open>old\<close> unchanged when
  it is empty.
\<close>

theorem C4_merge_refresh:
  assumes "k \<in> set updatable"
    and "normalize_entry_fields L old k = old k"
    and "normalize_entry_fields L new k = new k"
  shows "(str_field new k \<noteq> [] \<longrightarrow> merge_entries L old new k = new k)
       \<and> (str_field new k = [] \<longrightarrow> merge_entries L old new k = old k)"
proof -
  have sk: "k \<in> schema_keys" "k \<noteq> ''sub''"
    using assms(1) updatable_not(3)[OF assms(1)] unfolding updatable_iff schema_keys_iff
    by (elim disjE; simp)+
  have n: "str_field (normalize_entry_fields L new) k = str_field new k"
    using assms(3) by (simp add: str_field_def)
  have "new k = Some (PStr (str_field new k))"
    using normalize_entry_fields_str[OF sk, of L new] assms(3) n by simp
  then show ?thesis
    using merge_entries_updatable[OF assms(1), of L old new] n assms(2) by simp
qed

theorem C4_witness:
  "''Submission Deadline'' \<in> set updatable
   \<and> merge_entries c_lib
        (normalize_entry_fields c_lib [''Submission Deadline'' \<mapsto> PStr ''Jan 10 2026''])
        (normalize_entry_fields c_lib [''Submission Deadline'' \<mapsto> PStr ''Mar 01 2026''])
        ''Submission Deadline'' = Some (PStr ''Mar 01 2026'')
   \<and> merge_entries c_lib
        (normalize_entry_fields c_lib [''Submission Deadline'' \<mapsto> PStr ''Jan 10 2026''])
        (normalize_entry_fields c_lib Map.empty)
        ''Submission Deadline'' = Some (PStr ''Jan 10 2026'')"
proof -
  define a where "a = normalize_entry_fields c_lib [''Submission Deadline'' \<mapsto> PStr ''Jan 10 2026'']"
  define b where "b = normalize_entry_fields c_lib [''Submission Deadline'' \<mapsto> PStr ''Mar 01 2026'']"
  define c where "c = normalize_entry_fields c_lib Map.empty"
  have u: "''Submission Deadline'' \<in> set updatable" by (simp add: updatable_def)
  have va: "a ''Submission Deadline'' = Some (PStr ''Jan 10 2026'')"
    and vb: "b ''Submission Deadline'' = Some (PStr ''Mar 01 2026'')"
    and vc: "c ''Submission Deadline'' = Some (PStr [])"
    by (simp_all add: a_def b_def c_def normalize_entry_fields_date(4) dget_def clean_examples)
  have na: "normalize_entry_fields c_lib a ''Submission Deadline'' = a ''Submission Deadline''"
    and nb: "normalize_entry_fields c_lib b ''Submission Deadline'' = b ''Submission Deadline''"
    and nc: "normalize_entry_fields c_lib c ''Submission Deadline'' = c ''Submission Deadline''"
    by (simp_all add: normalize_entry_fields_date(4) dget_def va vb vc clean_examples)
  have sb: "str_field b ''Submission Deadline'' \<noteq> []" and sc: "str_field c ''Submission Deadline'' = []"
    by (simp_all add: str_field_def vb vc)
  from C4_merge_refresh[OF u na nb] sb vb
  have 1: "merge_entries c_lib a b ''Submission Deadline'' = Some (PStr ''Mar 01 2026'')" by simp
  from C4_merge_refresh[OF u na nc] sc va
  have 2: "merge_entries c_lib a c ''Submission Deadline'' = Some (PStr ''Jan 10 2026'')" by simp
  show ?thesis using u 1 2 unfolding a_def b_def c_def by simp
qed

section \<open>Resolution engine\<close>

lemma index_in_range_mono: "index_in_range idx n \<Longrightarrow> n \<le> m \<Longrightarrow> index_in_range idx m"
  unfolding index_in_range_def by (meson less_le_trans)

lemma index_in_range_setdefault:
  "index_in_range idx n \<Longrightarrow> i < n \<Longrightarrow> index_in_range (setdefault idx k i) n"
  unfolding index_in_range_def setdefault_def by (auto split: option.splits)

lemma index_in_range_register_keys:
  "index_in_range idx n \<Longrightarrow> i < n \<Longrightarrow> index_in_range (register_keys idx keys i) n"
  unfolding register_keys_def Let_def
  by (cases keys) (simp add: index_in_range_setdefault)

lemma index_in_range_build_index_loop:
  "index_in_range idx i \<Longrightarrow> index_in_range (build_index_loop idx i es) (i + length es)"
proof (induction es arbitrary: idx i)
  case Nil
  then show ?case by simp
next
  case (Cons e es)
  have "index_in_range idx (Suc i)" using Cons.prems index_in_range_mono by auto
  then have "index_in_range (register_keys idx (build_match_keys e) i) (Suc i)"
    by (simp add: index_in_range_register_keys)
  from Cons.IH[OF this] show ?case by simp
qed

lemma index_in_range_build_index: "index_in_range (build_index es) (length es)"
  unfolding build_index_def
  using index_in_range_build_index_loop[of Map.empty 0 es] by (simp add: index_in_range_def)

lemma find_hit_in_index: "find_hit idx keys = Some h \<Longrightarrow> \<exists>k. idx k = Some h"
  unfolding find_hit_def by (cases keys) (auto split: if_splits)

lemma find_hit_in_range: "index_in_range idx n \<Longrightarrow> find_hit idx keys = Some h \<Longrightarrow> h < n"
  using find_hit_in_index unfolding index_in_range_def by blast

lemma merge_update_loop_invariant:
  assumes "index_in_range idx (length E)"
  shows "\<exists>E' idx'. merge_update_loop L (E, idx) new = Inr (E', idx')
           \<and> length E \<le> length E' \<and> index_in_range idx' (length E')
           \<and> (\<forall>i<length E. \<exists>ns. subseq ns (map (normalize_entry_fields L) new)
                  \<and> E' ! i = foldl (merge_entries L) (E ! i) ns)"
  using assms
proof (induction new arbitrary: E idx)
  case Nil
  have "\<forall>i<length E. subseq [] ([]::entry list) \<and> E ! i = foldl (merge_entries L) (E ! i) []"
    by simp
  then show ?case using Nil by auto
next
  case (Cons ne rest)
  define ne2 where "ne2 = normalize_entry_fields L ne"
  show ?case
  proof (cases "find_hit idx (build_match_keys ne2)")
    case None
    define E1 where "E1 = E @ [ne2]"
    define idx1 where "idx1 = register_keys idx (build_match_keys ne2) (length E1 - 1)"
    have step: "merge_update_loop L (E, idx) (ne # rest) = merge_update_loop L (E1, idx1) rest"
      using None by (simp add: Let_def ne2_def[symmetric] E1_def idx1_def)
    have "index_in_range idx (length E1)"
      using Cons.prems index_in_range_mono by (simp add: E1_def)
    then have inv1: "index_in_range idx1 (length E1)"
      unfolding idx1_def by (rule index_in_range_register_keys) (simp add: E1_def)
    from Cons.IH[OF inv1] obtain E' idx' where
      r: "merge_update_loop L (E1, idx1) rest = Inr (E', idx')"
      and l: "length E1 \<le> length E'" and v: "index_in_range idx' (length E')"
      and p: "\<forall>i<length E1. \<exists>ns. subseq ns (map (normalize_entry_fields L) rest)
                  \<and> E' ! i = foldl (merge_entries L) (E1 ! i) ns"
      by blast
    have "\<exists>ns. subseq ns (map (normalize_entry_fields L) (ne # rest))
                  \<and> E' ! i = foldl (merge_entries L) (E ! i) ns" if "i < length E" for i
    proof -
      have "i < length E1" using that by (simp add: E1_def)
      with p obtain ns where ns: "subseq ns (map (normalize_entry_fields L) rest)"
        "E' ! i = foldl (merge_entries L) (E1 ! i) ns" by blast
      have "E1 ! i = E ! i" using that by (simp add: E1_def nth_append)
      moreover have "subseq ns (map (normalize_entry_fields L) (ne # rest))"
        using ns(1) by (simp add: list_emb_Cons)
      ultimately show ?thesis using ns(2) by auto
    qed
    moreover have "length E \<le> length E'" using l by (simp add: E1_def)
    ultimately show ?thesis using step r v by auto
  next
    case (Some hit)
    have h: "hit < length E" using find_hit_in_range[OF Cons.prems Some] .
    define E1 where "E1 = E[hit := merge_entries L (E ! hit) ne2]"
    have step: "merge_update_loop L (E, idx) (ne # rest) = merge_update_loop L (E1, idx) rest"
      using Some h by (simp add: Let_def ne2_def[symmetric] E1_def)
    have inv1: "index_in_range idx (length E1)" using Cons.prems by (simp add: E1_def)
    from Cons.IH[OF inv1] obtain E' idx' where
      r: "merge_update_loop L (E1, idx) rest = Inr (E', idx')"
      and l: "length E1 \<le> length E'" and v: "index_in_range idx' (length E')"
      and p: "\<forall>i<length E1. \<exists>ns. subseq ns (map (normalize_entry_fields L) rest)
                  \<and> E' ! i = foldl (merge_entries L) (E1 ! i) ns"
      by blast
    have "\<exists>ns. subseq ns (map (normalize_entry_fields L) (ne # rest))
                  \<and> E' ! i = foldl (merge_entries L) (E ! i) ns" if "i < length E" for i
    proof -
      have "i < length E1" using that by (simp add: E1_def)
      with p obtain ns where ns: "subseq ns (map (normalize_entry_fields L) rest)"
        "E' ! i = foldl (merge_entries L) (E1 ! i) ns" by blast
      show ?thesis
      proof (cases "i = hit")
        case True
        then have "E1 ! i = merge_entries L (E ! i) ne2" using that by (simp add: E1_def)
        then have "E' ! i = foldl (merge_entries L) (E ! i) (ne2 # ns)" using ns(2) by simp
        moreover have "subseq (ne2 # ns) (map (normalize_entry_fields L) (ne # rest))"
          using ns(1) by (simp add: ne2_def)
        ultimately show ?thesis by blast
      next
        case False
        then have "E1 ! i = E ! i" by (simp add: E1_def)
        moreover have "subseq ns (map (normalize_entry_fields L) (ne # rest))"
          using ns(1) by (simp add: list_emb_Cons)
        ultimately show ?thesis using ns(2) by auto
      qed
    qed
    moreover have "length E \<le> length E'" using l by (simp add: E1_def)
    ultimately show ?thesis using step r v by auto
  qed
qed

text \<open>
  C7: the merge stage never deletes catalog entries.  For every catalog and every
  list of incoming records \<open>merge_update\<close> returns (it does not raise), the
  returned catalog is at least as long as the input, and position \<open>i\<close> of the
  input holds in the output that same entry, normalized and then merged with some
  of the incoming records in their order.
\<close>

theorem C7_never_delete:
  "\<exists>out. merge_update L existing new_entries = Inr out
      \<and> length existing \<le> length out
      \<and> (\<forall>i<length existing. \<exists>ns. subseq ns (map (normalize_entry_fields L) new_entries)
            \<and> out ! i = foldl (merge_entries L) (normalize_entry_fields L (existing ! i)) ns)"
proof -
  define E where "E = map (normalize_entry_fields L) existing"
  have "index_in_range (build_index E) (length E)" by (rule index_in_range_build_index)
  from merge_update_loop_invariant[OF this, of L new_entries] obtain E' idx' where
    r: "merge_update_loop L (E, build_index E) new_entries = Inr (E', idx')"
    and l: "length E \<le> length E'"
    and p: "\<forall>i<length E. \<exists>ns. subseq ns (map (normalize_entry_fields L) new_entries)
                  \<and> E' ! i = foldl (merge_entries L) (E ! i) ns"
    by blast
  have "merge_update L existing new_entries = Inr E'"
    using r by (simp add: merge_update_def Let_def E_def)
  moreover have "length existing \<le> length E'" using l by (simp add: E_def)
  moreover have "\<forall>i<length existing. \<exists>ns. subseq ns (map (normalize_entry_fields L) new_entries)
            \<and> E' ! i = foldl (merge_entries L) (normalize_entry_fields L (existing ! i)) ns"
    using p by (simp add: E_def)
  ultimately show ?thesis by blast
qed

theorem C7_witness:
  "\<exists>out. merge_update c_lib [ex_icml] [ex_icml_2026] = Inr out \<and> 1 \<le> length out
     \<and> (\<exists>ns. subseq ns [normalize_entry_fields c_lib ex_icml_2026]
            \<and> out ! 0 = foldl (merge_entries c_lib) (normalize_entry_fields c_lib ex_icml) ns)"
  using C7_never_delete[of c_lib "[ex_icml]" "[ex_icml_2026]"] by simp

lemma merge_update_loop_hit:
  assumes "find_hit idx (build_match_keys (normalize_entry_fields L ne)) = Some a" "a < length E"
  shows "merge_update_loop L (E, idx) (ne # rest) =
         merge_update_loop L (E[a := merge_entries L (E ! a) (normalize_entry_fields L ne)], idx) rest"
  using assms by (simp add: Let_def)

lemma merge_update_loop_miss:
  assumes "find_hit idx (build_match_keys (normalize_entry_fields L ne)) = None"
  shows "merge_update_loop L (E, idx) (ne # rest) =
         merge_update_loop L (E @ [normalize_entry_fields L ne],
           register_keys idx (build_match_keys (normalize_entry_fields L ne)) (length E)) rest"
  using assms by (simp add: Let_def)

text \<open>
  C3: the keys are tried in strict priority order and the first hit wins.  With
  \<open>(link_key, exact, series)\<close> the keys of the normalized incoming record: a
  non-empty link key found in the index decides, whatever the name keys would
  match; otherwise a non-empty exact-name key found in the index decides;
  otherwise a non-empty series key found in the index; otherwise the record is
  appended.  The record is merged into the slot the deciding key maps to.
\<close>

theorem C3_match_priority:
  assumes "build_match_keys (normalize_entry_fields L ne) = (link_key, exact, series)"
    and "a < length E"
  shows "(link_key \<noteq> [] \<and> idx (''L:'' @ link_key) = Some a \<longrightarrow>
            merge_update_loop L (E, idx) (ne # rest) =
            merge_update_loop L (E[a := merge_entries L (E ! a) (normalize_entry_fields L ne)], idx) rest)
       \<and> ((link_key = [] \<or> idx (''L:'' @ link_key) = None)
            \<and> exact \<noteq> [] \<and> idx (''N:'' @ exact) = Some a \<longrightarrow>
            merge_update_loop L (E, idx) (ne # rest) =
            merge_update_loop L (E[a := merge_entries L (E ! a) (normalize_entry_fields L ne)], idx) rest)
       \<and> ((link_key = [] \<or> idx (''L:'' @ link_key) = None)
            \<and> (exact = [] \<or> idx (''N:'' @ exact) = None)
            \<and> series \<noteq> [] \<and> idx (''S:'' @ series) = Some a \<longrightarrow>
            merge_update_loop L (E, idx) (ne # rest) =
            merge_update_loop L (E[a := merge_entries L (E ! a) (normalize_entry_fields L ne)], idx) rest)
       \<and> ((link_key = [] \<or> idx (''L:'' @ link_key) = None)
            \<and> (exact = [] \<or> idx (''N:'' @ exact) = None)
            \<and> (series = [] \<or> idx (''S:'' @ series) = None) \<longrightarrow>
            merge_update_loop L (E, idx) (ne # rest) =
            merge_update_loop L (E @ [normalize_entry_fields L ne],
              register_keys idx (link_key, exact, series) (length E)) rest)"
proof (intro conjI impI)
  assume "link_key \<noteq> [] \<and> idx (''L:'' @ link_key) = Some a"
  then have "find_hit idx (link_key, exact, series) = Some a" by (simp add: find_hit_def)
  then show "merge_update_loop L (E, idx) (ne # rest) =
            merge_update_loop L (E[a := merge_entries L (E ! a) (normalize_entry_fields L ne)], idx) rest"
    using merge_update_loop_hit[of idx L ne a E rest] assms by simp
next
  assume "(link_key = [] \<or> idx (''L:'' @ link_key) = None)
            \<and> exact \<noteq> [] \<and> idx (''N:'' @ exact) = Some a"
  then have "find_hit idx (link_key, exact, series) = Some a" by (auto simp: find_hit_def)
  then show "merge_update_loop L (E, idx) (ne # rest) =
            merge_update_loop L (E[a := merge_entries L (E ! a) (normalize_entry_fields L ne)], idx) rest"
    using merge_update_loop_hit[of idx L ne a E rest] assms by simp
next
  assume "(link_key = [] \<or> idx (''L:'' @ link_key) = None)
            \<and> (exact = [] \<or> idx (''N:'' @ exact) = None)
            \<and> series \<noteq> [] \<and> idx (''S:'' @ series) = Some a"
  then have "find_hit idx (link_key, exact, series) = Some a" by (auto simp: find_hit_def)
  then show "merge_update_loop L (E, idx) (ne # rest) =
            merge_update_loop L (E[a := merge_entries L (E ! a) (normalize_entry_fields L ne)], idx) rest"
    using merge_update_loop_hit[of idx L ne a E rest] assms by simp
next
  assume "(link_key = [] \<or> idx (''L:'' @ link_key) = None)
            \<and> (exact = [] \<or> idx (''N:'' @ exact) = None)
            \<and> (series = [] \<or> idx (''S:'' @ series) = None)"
  then have "find_hit idx (link_key, exact, series) = None" by (auto simp: find_hit_def)
  then show "merge_update_loop L (E, idx) (ne # rest) =
            merge_update_loop L (E @ [normalize_entry_fields L ne],
              register_keys idx (link_key, exact, series) (length E)) rest"
    using merge_update_loop_miss[of idx L ne E rest] assms by simp
qed

text \<open>
  The catalog holds A (link https://a.org) and B (name "Beta Conf"); the incoming
  record has A's link and B's name.  It is merged into A, and B is left as it is.
\<close>

theorem C3_witness:
  "build_match_keys (normalize_entry_fields c_lib ex_N) = (''https://a.org'', ''beta conf'', ''beta conf'')
   \<and> build_index [normalize_entry_fields c_lib ex_A, normalize_entry_fields c_lib ex_B]
        ''L:https://a.org'' = Some 0
   \<and> build_index [normalize_entry_fields c_lib ex_A, normalize_entry_fields c_lib ex_B]
        ''N:beta conf'' = Some 1
   \<and> merge_update c_lib [ex_A, ex_B] [ex_N] =
        Inr [merge_entries c_lib (normalize_entry_fields c_lib ex_A) (normalize_entry_fields c_lib ex_N),
             normalize_entry_fields c_lib ex_B]"
proof -
  define E where "E = [normalize_entry_fields c_lib ex_A, normalize_entry_fields c_lib ex_B]"
  have k: "build_match_keys (normalize_entry_fields c_lib ex_N) = (''https://a.org'', ''beta conf'', ''beta conf'')"
    by code_simp
  have l: "build_index E ''L:https://a.org'' = Some 0" unfolding E_def by code_simp
  have n: "build_index E ''N:beta conf'' = Some 1" unfolding E_def by code_simp
  have a: "0 < length E" by (simp add: E_def)
  have "merge_update_loop c_lib (E, build_index E) [ex_N] =
        merge_update_loop c_lib (E[0 := merge_entries c_lib (E ! 0) (normalize_entry_fields c_lib ex_N)], build_index E) []"
    using C3_match_priority[OF k a, of "build_index E" "[]"] l by simp
  then have "merge_update c_lib [ex_A, ex_B] [ex_N] =
        Inr (E[0 := merge_entries c_lib (E ! 0) (normalize_entry_fields c_lib ex_N)])"
    by (simp add: merge_update_def Let_def E_def)
  then show ?thesis using k l n by (simp add: E_def)
qed

lemma build_match_keys_cong:
  "d ''link'' = d' ''link'' \<Longrightarrow> d ''name'' = d' ''name'' \<Longrightarrow> build_match_keys d = build_match_keys d'"
  by (simp add: build_match_keys_def dget_def)

lemma normalized_link_fixed:
  "str_field (normalize_entry_fields L (normalize_entry_fields L e)) ''link'' = str_field (normalize_entry_fields L e) ''link''"
  by (simp add: str_field_def normalize_entry_fields_plain2 dget_def norm_space_fixed)

lemma str_field_name: "str_field (normalize_entry_fields L e) ''name'' = norm_space (dget e ''name'' (PStr []))"
  by (simp add: str_field_def normalize_entry_fields_plain)

lemma str_field_link: "str_field (normalize_entry_fields L e) ''link'' = norm_space (dget e ''link'' (PStr []))"
  by (simp add: str_field_def normalize_entry_fields_plain2)

lemma icml_values:
  "norm_space (dget ex_icml ''name'' (PStr [])) = ''ICML''"
  "norm_space (dget ex_icml ''link'' (PStr [])) = []"
  "norm_space (dget ex_icml_2026 ''name'' (PStr [])) = ''ICML 2026''"
  "norm_space (dget ex_icml_2026 ''link'' (PStr [])) = ''https://icml.cc''"
  "norm_space (dget ex_icml_long ''name'' (PStr [])) = ''International Conference on Machine Learning''"
  "norm_space (dget ex_icml_long ''link'' (PStr [])) = ''https://icml.cc''"
  by code_simp+

lemma icml_keys:
  "build_match_keys [''name'' \<mapsto> PStr ''ICML'', ''link'' \<mapsto> PStr []] = ([], ''icml'', ''icml'')"
  "build_match_keys [''name'' \<mapsto> PStr ''ICML 2026'', ''link'' \<mapsto> PStr ''https://icml.cc'']
     = (''https://icml.cc'', ''icml 2026'', ''icml'')"
  "build_match_keys [''name'' \<mapsto> PStr ''International Conference on Machine Learning'',
                     ''link'' \<mapsto> PStr ''https://icml.cc'']
     = (''https://icml.cc'', ''international conference on machine learning'',
        ''international conference on machine learning'')"
  by code_simp+

lemma keys_of_normalized:
  "build_match_keys (normalize_entry_fields L e) =
   build_match_keys [''name'' \<mapsto> PStr (norm_space (dget e ''name'' (PStr []))),
                     ''link'' \<mapsto> PStr (norm_space (dget e ''link'' (PStr [])))]"
  by (rule build_match_keys_cong) (simp_all add: normalize_entry_fields_plain normalize_entry_fields_plain2)

text \<open>
  C1 says that after a match the keys of the merged record are registered in the
  index, so that a later record can match the entry by a key it has just
  acquired.  The merge branch of \<open>merge_update\<close> leaves the index as it is.  The
  catalog holds "ICML" without a link; "ICML 2026" with the link https://icml.cc
  matches it by series key and the merged entry now carries the link and the name
  "ICML 2026", but neither the link key nor the new exact-name key is in the index
  afterwards.  A second record with the same link and another name is therefore
  appended as a new entry: the catalog ends with two entries for one link.
\<close>

theorem C1_stale_index:
  "(case merge_update_loop c_lib ([normalize_entry_fields c_lib ex_icml],
                                  build_index [normalize_entry_fields c_lib ex_icml]) [ex_icml_2026] of
      Inl e \<Rightarrow> False
    | Inr (E', idx') \<Rightarrow>
        length E' = 1
        \<and> build_match_keys (E' ! 0) = (''https://icml.cc'', ''icml 2026'', ''icml'')
        \<and> idx' ''L:https://icml.cc'' = None \<and> idx' ''N:icml 2026'' = None
        \<and> idx' ''N:icml'' = Some 0 \<and> idx' ''S:icml'' = Some 0)
   \<and> (case merge_update c_lib [ex_icml] [ex_icml_2026, ex_icml_long] of
      Inl e \<Rightarrow> False
    | Inr out \<Rightarrow>
        length out = 2
        \<and> (out ! 0) ''link'' = Some (PStr ''https://icml.cc'')
        \<and> (out ! 1) ''link'' = Some (PStr ''https://icml.cc''))"
proof -
  define e0 where "e0 = normalize_entry_fields c_lib ex_icml"
  define n1 where "n1 = normalize_entry_fields c_lib ex_icml_2026"
  define n2 where "n2 = normalize_entry_fields c_lib ex_icml_long"
  define idx0 where "idx0 = build_index [e0]"
  define m where "m = merge_entries c_lib e0 n1"
  have k0: "build_match_keys e0 = ([], ''icml'', ''icml'')"
    and k1: "build_match_keys n1 = (''https://icml.cc'', ''icml 2026'', ''icml'')"
    and k2: "build_match_keys n2 = (''https://icml.cc'', ''international conference on machine learning'',
        ''international conference on machine learning'')"
    unfolding e0_def n1_def n2_def by (simp_all add: keys_of_normalized icml_values icml_keys)
  have idx0: "idx0 = [''N:icml'' \<mapsto> 0, ''S:icml'' \<mapsto> 0]"
    unfolding idx0_def build_index_def
    by (simp add: k0 register_keys_def setdefault_def)
  have i: "idx0 ''L:https://icml.cc'' = None" "idx0 ''N:icml 2026'' = None"
    "idx0 ''N:icml'' = Some 0" "idx0 ''S:icml'' = Some 0"
    "idx0 ''N:international conference on machine learning'' = None"
    "idx0 ''S:international conference on machine learning'' = None"
    unfolding idx0 by simp_all
  have h1: "find_hit idx0 (build_match_keys n1) = Some 0"
    unfolding k1 find_hit_def using i by simp
  have h2: "find_hit idx0 (build_match_keys n2) = None"
    unfolding k2 find_hit_def using i by simp
  have s1: "merge_update_loop c_lib ([e0], idx0) (ex_icml_2026 # rest) =
            merge_update_loop c_lib ([m], idx0) rest" for rest
    using merge_update_loop_hit[of idx0 c_lib ex_icml_2026 0 "[e0]" rest] h1
    by (simp add: n1_def m_def)
  have s2: "merge_update_loop c_lib ([m], idx0) [ex_icml_long] =
            Inr ([m, n2], register_keys idx0 (build_match_keys n2) 1)"
    using merge_update_loop_miss[of idx0 c_lib ex_icml_long "[m]" "[]"] h2
    by (simp add: n2_def)
  have ml: "m ''link'' = Some (PStr ''https://icml.cc'')"
    unfolding m_def e0_def n1_def
    by (simp only: merge_entries_link normalized_link_fixed) (simp add: str_field_link icml_values)
  have mn: "m ''name'' = Some (PStr ''ICML 2026'')"
    unfolding m_def e0_def n1_def
    by (simp only: merge_entries_name normalized_name_fixed) (simp add: str_field_name icml_values)
  have km: "build_match_keys m = (''https://icml.cc'', ''icml 2026'', ''icml'')"
    using build_match_keys_cong[of m "[''name'' \<mapsto> PStr ''ICML 2026'', ''link'' \<mapsto> PStr ''https://icml.cc'']"]
    by (simp add: ml mn icml_keys)
  have n2l: "n2 ''link'' = Some (PStr ''https://icml.cc'')"
    unfolding n2_def by (simp add: normalize_entry_fields_plain2 icml_values)
  have a: "merge_update_loop c_lib ([e0], idx0) [ex_icml_2026] = Inr ([m], idx0)"
    by (simp only: s1 merge_update_loop.simps(1))
  have "merge_update_loop c_lib ([e0], idx0) [ex_icml_2026, ex_icml_long] =
        Inr ([m, n2], register_keys idx0 (build_match_keys n2) 1)"
    by (simp only: s1 s2)
  then have b: "merge_update c_lib [ex_icml] [ex_icml_2026, ex_icml_long] = Inr [m, n2]"
    by (simp add: merge_update_def Let_def e0_def[symmetric] idx0_def[symmetric]
          del: merge_update_loop.simps)
  show ?thesis
    unfolding e0_def[symmetric] idx0_def[symmetric] a b
    using km i ml n2l by simp
qed

section \<open>Ordering\<close>

text \<open>
  C10: the ordering stage is a pure permutation: the output of \<open>sort_output\<close> holds
  exactly the records of its input, each as often as the input does, and none of
  them changed.
\<close>

theorem C10_sort_output_permutation:
  "mset (sort_output L entries) = mset entries"
  by (simp add: sort_output_def)







end
